theory Spec2Isabelle
  imports Main
begin

section \<open>Go values used by \<open>api/routes/shorten.go\<close>\<close>

subsection \<open>Durations\<close>

text \<open>
  \<open>time.Duration\<close> is a signed 64-bit count of nanoseconds. It is modelled as an
  \<open>int\<close>; the one multiplication the handler performs on a caller-supplied
  duration wraps around as Go's does (\<open>go_mul\<close>).
\<close>

type_synonym duration = int

definition Nanosecond :: duration where
  "Nanosecond = 1"

definition Second :: duration where
  "Second = 1000000000"

definition Minute :: duration where
  "Minute = 60 * Second"

definition is_int64 :: "int \<Rightarrow> bool" where
  "is_int64 x = (- (2 ^ 63) \<le> x \<and> x < 2 ^ 63)"

definition wrap64 :: "int \<Rightarrow> int" where
  "wrap64 x = (x + 2 ^ 63) mod 2 ^ 64 - 2 ^ 63"

definition go_mul :: "duration \<Rightarrow> duration \<Rightarrow> duration" where
  "go_mul a b = wrap64 (a * b)"

text \<open>Go's integer division truncates towards zero.\<close>

definition go_quot :: "int \<Rightarrow> int \<Rightarrow> int" where
  "go_quot a b = (if (a < 0) = (b < 0) then \<bar>a\<bar> div \<bar>b\<bar> else - (\<bar>a\<bar> div \<bar>b\<bar>))"

subsection \<open>Decimal strings: \<open>strconv.Atoi\<close> and the client's integer encoding\<close>

definition digit_char :: "nat \<Rightarrow> char" where
  "digit_char d = char_of (48 + d)"

definition is_digit :: "char \<Rightarrow> bool" where
  "is_digit c = (48 \<le> (of_char c :: nat) \<and> (of_char c :: nat) \<le> 57)"

definition digit_val :: "char \<Rightarrow> nat" where
  "digit_val c = of_char c - 48"

fun decimal :: "nat \<Rightarrow> string" where
  "decimal n =
     (if n < 10 then [digit_char n]
      else decimal (n div 10) @ [digit_char (n mod 10)])"

declare decimal.simps [simp del]

text \<open>
  \<open>itoa\<close> is the decimal text of an integer, as \<open>strconv.Itoa\<close> and the Redis client
  (which sends an \<open>int\<close> argument through \<open>strconv.AppendInt\<close>) produce it, and as the
  Redis server writes the result of \<open>DECR\<close>.
\<close>

definition itoa :: "int \<Rightarrow> string" where
  "itoa i = (if i < 0 then CHR ''-'' # decimal (nat (- i)) else decimal (nat i))"

fun parse_digits :: "string \<Rightarrow> nat \<Rightarrow> nat option" where
  "parse_digits [] acc = Some acc"
| "parse_digits (c # cs) acc =
     (if is_digit c then parse_digits cs (acc * 10 + digit_val c) else None)"

text \<open>
  \<open>strconv.Atoi\<close>: an optional sign, then at least one decimal digit and nothing
  else; the value must fit an \<open>int\<close> (64 bits). \<open>None\<close> stands for the
  \<open>*strconv.NumError\<close> it returns otherwise.
\<close>

definition atoi :: "string \<Rightarrow> int option" where
  "atoi s =
     (case s of
        [] \<Rightarrow> None
      | c # cs \<Rightarrow>
          (let neg = (c = CHR ''-'');
               ds = (if c = CHR ''-'' \<or> c = CHR ''+'' then cs else s)
           in if ds = [] then None
              else (case parse_digits ds 0 of
                      None \<Rightarrow> None
                    | Some n \<Rightarrow>
                        (let v = (if neg then - int n else int n)
                         in if is_int64 v then Some v else None))))"

text \<open>
  The Redis server reads a stored value as an integer only in its canonical decimal
  form (no plus sign, no leading zeros, no \<open>-0\<close>), within 64 bits.
\<close>

definition redis_int :: "string \<Rightarrow> int option" where
  "redis_int s =
     (case atoi s of
        None \<Rightarrow> None
      | Some n \<Rightarrow> if itoa n = s then Some n else None)"

subsection \<open>Errors\<close>

datatype go_error =
    Redis_Nil
  | Redis_Error string
  | NumError string
  | Errorf string

section \<open>The key-value store\<close>

text \<open>
  Modelled from the spec: the store that \<open>database.CreateClient\<close> returns. Package
  \<open>database\<close> and the Redis client behind it are not part of the source file; the
  model follows the interface table of the specification (get, set, decrement, expire,
  time-to-live over string keys and values with a per-key expiry) and, where the table
  is silent, what the Redis client reports. A key holds a string value and an optional
  remaining lifetime in nanoseconds (\<open>None\<close>: the key does not expire).

  Two more components make the environment explicit:
  \<^item> \<open>faults\<close> is a schedule of communication failures: every command takes the head
    of the list, and \<open>Some msg\<close> makes that command fail with the client error
    \<open>msg\<close> without reaching the server;
  \<^item> \<open>calls\<close> records, in order, the calls the handler makes to the validation helpers
    and to the store.
\<close>

datatype event =
    E_IsURL string
  | E_RemoveDomainError string
  | E_EnforceHTTP string
  | E_Get string
  | E_Set string string duration
  | E_Decr string
  | E_Expire string duration
  | E_TTL string

type_synonym entry = "string \<times> duration option"

record redis =
  kv :: "string \<rightharpoonup> entry"
  faults :: "string option list"
  calls :: "event list"

definition emit :: "event \<Rightarrow> redis \<Rightarrow> redis" where
  "emit ev r = r\<lparr>calls := calls r @ [ev]\<rparr>"

text \<open>
  Sending one command: it is recorded and takes the head of the fault schedule (an
  empty schedule means that no command fails any more).
\<close>

definition fault :: "redis \<Rightarrow> string option" where
  "fault r = (case faults r of [] \<Rightarrow> None | f # fs \<Rightarrow> f)"

definition sent :: "event \<Rightarrow> redis \<Rightarrow> redis" where
  "sent ev r = r\<lparr>faults := tl (faults r), calls := calls r @ [ev]\<rparr>"

definition command :: "event \<Rightarrow> redis \<Rightarrow> string option \<times> redis" where
  "command ev r = (fault r, sent ev r)"

text \<open>The next \<open>n\<close> commands reach the server.\<close>

definition healthy :: "nat \<Rightarrow> redis \<Rightarrow> bool" where
  "healthy n r = list_all (\<lambda>f. f = None) (take n (faults r))"

text \<open>
  Modelled from the spec: \<open>r.Get(ctx, key).Result()\<close>, the table's \<open>get\<close>. It
  returns the value and a nil error, or the empty string and \<open>redis.Nil\<close> for a
  missing key, or the empty string and the client's error.
\<close>

definition Get :: "redis \<Rightarrow> string \<Rightarrow> (string \<times> go_error option) \<times> redis" where
  "Get r key =
     (case command (E_Get key) r of
        (Some msg, r') \<Rightarrow> (('''', Some (Redis_Error msg)), r')
      | (None, r') \<Rightarrow>
          (case kv r' key of
             None \<Rightarrow> (('''', Some Redis_Nil), r')
           | Some (v, l) \<Rightarrow> ((v, None), r')))"

text \<open>
  Modelled from the spec: \<open>r.Set(ctx, key, value, expiration).Err()\<close>, the table's
  \<open>set\<close>. It overwrites the key. The client sends an expiry only for a positive
  \<open>expiration\<close>; otherwise the key is stored without one.
\<close>

definition Set :: "redis \<Rightarrow> string \<Rightarrow> string \<Rightarrow> duration \<Rightarrow> go_error option \<times> redis" where
  "Set r key v expiration =
     (case command (E_Set key v expiration) r of
        (Some msg, r') \<Rightarrow> (Some (Redis_Error msg), r')
      | (None, r') \<Rightarrow>
          (None, r'\<lparr>kv := (kv r')(key \<mapsto> (v, if 0 < expiration then Some expiration else None))\<rparr>))"

text \<open>
  Modelled from the spec: \<open>r.Decr(ctx, key).Err()\<close>, the table's \<open>decr\<close>. It
  subtracts one from an integer value and keeps the key's lifetime. It fails on a
  missing key, as the table has it (\<open>handleRateLimit\<close> decrements only a key it has
  just read), and on a value that is not an integer or is the least 64-bit integer.
\<close>

definition Decr :: "redis \<Rightarrow> string \<Rightarrow> go_error option \<times> redis" where
  "Decr r key =
     (case command (E_Decr key) r of
        (Some msg, r') \<Rightarrow> (Some (Redis_Error msg), r')
      | (None, r') \<Rightarrow>
          (case kv r' key of
             None \<Rightarrow> (Some (Redis_Error ''ERR no such key''), r')
           | Some (v, l) \<Rightarrow>
               (case redis_int v of
                  None \<Rightarrow> (Some (Redis_Error ''ERR value is not an integer or out of range''), r')
                | Some n \<Rightarrow>
                    if is_int64 (n - 1)
                    then (None, r'\<lparr>kv := (kv r')(key \<mapsto> (itoa (n - 1), l))\<rparr>)
                    else (Some (Redis_Error ''ERR increment or decrement would overflow''), r'))))"

text \<open>
  Modelled from the spec: \<open>r.Expire(ctx, key, expiration).Err()\<close>, the table's
  \<open>expire\<close>. It sets the remaining lifetime of an existing key (a lifetime that is
  not positive deletes the key); a missing key is left missing, without an error.
\<close>

definition Expire :: "redis \<Rightarrow> string \<Rightarrow> duration \<Rightarrow> go_error option \<times> redis" where
  "Expire r key expiration =
     (case command (E_Expire key expiration) r of
        (Some msg, r') \<Rightarrow> (Some (Redis_Error msg), r')
      | (None, r') \<Rightarrow>
          (case kv r' key of
             None \<Rightarrow> (None, r')
           | Some (v, l) \<Rightarrow>
               if 0 < expiration
               then (None, r'\<lparr>kv := (kv r')(key \<mapsto> (v, Some expiration))\<rparr>)
               else (None, r'\<lparr>kv := (kv r')(key := None)\<rparr>)))"

text \<open>
  Modelled from the spec: \<open>r.TTL(ctx, key).Result()\<close>, the table's \<open>ttl\<close>. It
  returns the remaining lifetime; for a missing key and for a key without expiry,
  where the table leaves the result open, it returns the client's \<open>-2\<close> and
  \<open>-1\<close> nanoseconds.
\<close>

definition TTL :: "redis \<Rightarrow> string \<Rightarrow> (duration \<times> go_error option) \<times> redis" where
  "TTL r key =
     (case command (E_TTL key) r of
        (Some msg, r') \<Rightarrow> ((0, Some (Redis_Error msg)), r')
      | (None, r') \<Rightarrow>
          (case kv r' key of
             None \<Rightarrow> ((- 2, None), r')
           | Some (v, None) \<Rightarrow> ((- 1, None), r')
           | Some (v, Some l) \<Rightarrow> ((l, None), r')))"

text \<open>
  Modelled from the spec: time passing between two requests. Lifetimes shrink, and a
  key whose lifetime has elapsed is absent.
\<close>

definition elapse :: "duration \<Rightarrow> redis \<Rightarrow> redis" where
  "elapse d r =
     r\<lparr>kv := (\<lambda>k. case kv r k of
                    None \<Rightarrow> None
                  | Some (v, None) \<Rightarrow> Some (v, None)
                  | Some (v, Some l) \<Rightarrow> if l \<le> d then None else Some (v, Some (l - d)))\<rparr>"

section \<open>The rate limiter\<close>

text \<open>\<open>handleRateLimit\<close> returns the remaining quota, the reset duration and the error.\<close>

definition handleRateLimit ::
  "redis \<Rightarrow> string \<Rightarrow> int \<Rightarrow> (int \<times> duration \<times> go_error option) \<times> redis" where
  "handleRateLimit r ip quota =
     (case Get r ip of
        ((val, err), r1) \<Rightarrow>
          if err = Some Redis_Nil then
            (case Set r1 ip (itoa quota) (30 * 60 * Second) of
               (Some e, r2) \<Rightarrow> ((0, 0, Some e), r2)
             | (None, r2) \<Rightarrow> ((quota, 30 * Minute, None), r2))
          else if err \<noteq> None then ((0, 0, err), r1)
          else
            (case atoi val of
               None \<Rightarrow> ((0, 0, Some (NumError val)), r1)
             | Some remaining \<Rightarrow>
                 if remaining \<le> 0 then
                   (case TTL r1 ip of
                      ((ttl, Some e), r2) \<Rightarrow> ((0, 0, Some e), r2)
                    | ((ttl, None), r2) \<Rightarrow> ((0, ttl, Some (Errorf ''rate limit exceeded'')), r2))
                 else
                   (case Decr r1 ip of
                      (Some e, r2) \<Rightarrow> ((0, 0, Some e), r2)
                    | (None, r2) \<Rightarrow>
                        (case Expire r2 ip (30 * 60 * Second) of
                           (Some e, r3) \<Rightarrow> ((0, 0, Some e), r3)
                         | (None, r3) \<Rightarrow> ((remaining - 1, 30 * Minute, None), r3)))))"

section \<open>The handler\<close>

record request =
  req_URL :: string
  req_CustomShort :: string
  req_Expiry :: duration

record response =
  resp_URL :: string
  resp_CustomShort :: string
  resp_Expiry :: duration
  XRateRemaining :: int
  XRateLimitReset :: duration

text \<open>
  What the handler reads from outside the store: the validation helpers
  (\<open>govalidator.IsURL\<close>, \<open>helpers.RemoveDomainError\<close>, \<open>helpers.EnforceHTTP\<close>), the text
  of the fresh UUID, the two environment variables (the empty string when unset) and
  the caller's address.
\<close>

record env =
  IsURL :: "string \<Rightarrow> bool"
  RemoveDomainError :: "string \<Rightarrow> bool"
  EnforceHTTP :: "string \<Rightarrow> string"
  uuid_String :: string
  API_QUOTA :: string
  DOMAIN :: string
  IP :: string

text \<open>
  The JSON body of a reply: a single \<open>error\<close> field; the \<open>error\<close> and
  \<open>rate_limit_reset\<close> fields of the rate-limit branch (the error itself stands for its
  message \<open>err.Error()\<close>); or the \<open>response\<close>.
\<close>

datatype json_body =
    Error_Body string
  | Limit_Body go_error duration
  | Response_Body response

type_synonym reply = "nat \<times> json_body"

definition StatusOK :: nat where "StatusOK = 200"
definition StatusBadRequest :: nat where "StatusBadRequest = 400"
definition StatusForbidden :: nat where "StatusForbidden = 403"
definition StatusInternalServerError :: nat where "StatusInternalServerError = 500"
definition StatusServiceUnavailable :: nat where "StatusServiceUnavailable = 503"

text \<open>\<open>strconv.Atoi(os.Getenv("API_QUOTA"))\<close> with the default of 100.\<close>

definition quota_of :: "env \<Rightarrow> int" where
  "quota_of e = (case atoi (API_QUOTA e) of None \<Rightarrow> 100 | Some q \<Rightarrow> q)"

text \<open>The identifier: the first six characters of the UUID, or the custom one.\<close>

definition resolve_id :: "env \<Rightarrow> request \<Rightarrow> string" where
  "resolve_id e body =
     (if req_CustomShort body = '''' then take 6 (uuid_String e) else req_CustomShort body)"

text \<open>
  \<open>ShortenURL\<close>. The parsed body is \<open>None\<close> when \<open>c.BodyParser\<close> fails. The error
  of the lookup \<open>r.Get(database.Ctx, id)\<close> is discarded, as in the source.
\<close>

definition ShortenURL :: "env \<Rightarrow> request option \<Rightarrow> redis \<Rightarrow> reply \<times> redis" where
  "ShortenURL e parsed r0 =
     (case parsed of
        None \<Rightarrow> ((StatusBadRequest, Error_Body ''cannot parse JSON''), r0)
      | Some body \<Rightarrow>
          (let r1 = emit (E_IsURL (req_URL body)) r0 in
           if \<not> IsURL e (req_URL body)
           then ((StatusBadRequest, Error_Body ''invalid URL''), r1)
           else
             (let r2 = emit (E_RemoveDomainError (req_URL body)) r1 in
              if \<not> RemoveDomainError e (req_URL body)
              then ((StatusServiceUnavailable, Error_Body ''haha... nice try''), r2)
              else
                (let r3 = emit (E_EnforceHTTP (req_URL body)) r2;
                     url = EnforceHTTP e (req_URL body);
                     id = resolve_id e body
                 in case Get r3 id of
                      ((val, _), r4) \<Rightarrow>
                        if val \<noteq> ''''
                        then ((StatusForbidden, Error_Body ''URL short already in use''), r4)
                        else
                          (case handleRateLimit r4 (IP e) (quota_of e) of
                             ((remaining, exp, Some err), r5) \<Rightarrow>
                               ((StatusServiceUnavailable,
                                 Limit_Body err (go_quot (go_quot exp Second) Minute)), r5)
                           | ((remaining, exp, None), r5) \<Rightarrow>
                               (let expiry = (if req_Expiry body = 0 then 24 else req_Expiry body)
                                in case Set r5 id url (go_mul (go_mul expiry 3600) Second) of
                                     (Some err, r6) \<Rightarrow>
                                       ((StatusInternalServerError,
                                         Error_Body ''unable to connect to server''), r6)
                                   | (None, r6) \<Rightarrow>
                                       ((StatusOK,
                                         Response_Body
                                           \<lparr>resp_URL = url,
                                            resp_CustomShort = DOMAIN e @ ''/'' @ id,
                                            resp_Expiry = expiry,
                                            XRateRemaining = remaining,
                                            XRateLimitReset =
                                              go_quot (go_quot exp Nanosecond) Minute\<rparr>),
                                        r6)))))))"

section \<open>Runs of the rate limiter\<close>

text \<open>
  A client's successive rate-limit checks: before each check the given amount of time
  passes. The results are collected in order.
\<close>

fun rate_calls ::
  "redis \<Rightarrow> string \<Rightarrow> int \<Rightarrow> duration list \<Rightarrow> (int \<times> duration \<times> go_error option) list \<times> redis" where
  "rate_calls r ip quota [] = ([], r)"
| "rate_calls r ip quota (g # gs) =
     (case handleRateLimit (elapse g r) ip quota of
        (res, r') \<Rightarrow>
          (case rate_calls r' ip quota gs of
             (rs, r'') \<Rightarrow> (res # rs, r'')))"

text \<open>The counter invariant: a stored counter is an integer between 0 and the quota.\<close>

definition counter_ok :: "int \<Rightarrow> entry option \<Rightarrow> bool" where
  "counter_ok quota x =
     (case x of
        None \<Rightarrow> True
      | Some (v, l) \<Rightarrow>
          (case redis_int v of
             None \<Rightarrow> False
           | Some n \<Rightarrow> 0 \<le> n \<and> n \<le> quota))"

text \<open>The commands that change the store.\<close>

fun mutating :: "event \<Rightarrow> bool" where
  "mutating (E_Set k v t) = True"
| "mutating (E_Decr k) = True"
| "mutating (E_Expire k t) = True"
| "mutating ev = False"

section \<open>Runs of registrations\<close>

text \<open>
  A client's successive registrations: each step is the time that passes before the
  request, what the handler reads from outside the store for it, and its parsed body.
  The replies are collected in order.
\<close>

type_synonym step = "duration \<times> env \<times> request"

fun registrations :: "redis \<Rightarrow> step list \<Rightarrow> reply list \<times> redis" where
  "registrations r [] = ([], r)"
| "registrations r ((g, e, body) # xs) =
     (case ShortenURL e (Some body) (elapse g r) of
        (rep, r') \<Rightarrow>
          (case registrations r' xs of
             (reps, r'') \<Rightarrow> (rep # reps, r'')))"

text \<open>The identifier a step registers.\<close>

definition step_id :: "step \<Rightarrow> string" where
  "step_id x = (case x of (g, e, body) \<Rightarrow> resolve_id e body)"

text \<open>
  A step of the client at address \<open>ip\<close> under quota \<open>q\<close>: less than 30 minutes
  after the one before, with a URL that passes both checks and an identifier other
  than the client's own address.
\<close>

definition step_ok :: "string \<Rightarrow> int \<Rightarrow> step \<Rightarrow> bool" where
  "step_ok ip q x =
     (case x of
        (g, e, body) \<Rightarrow>
          0 \<le> g \<and> g < 30 * Minute \<and> IP e = ip \<and> quota_of e = q \<and>
          IsURL e (req_URL body) \<and> RemoveDomainError e (req_URL body) \<and>
          resolve_id e body \<noteq> ip)"

text \<open>The \<open>rate_limit\<close> field of a reply, when it has one.\<close>

definition rate_limit_of :: "reply \<Rightarrow> int option" where
  "rate_limit_of rep =
     (case rep of
        (st, Response_Body resp) \<Rightarrow> Some (XRateRemaining resp)
      | (st, other) \<Rightarrow> None)"

section \<open>Sample inputs\<close>

text \<open>
  Concrete inputs for the examples below: a store without keys and without faults,
  sample collaborators, a request without a custom identifier and two with one, a store
  in which the generated identifier is taken, a store whose first command fails, and a
  store in which the client's counter is 0.
\<close>

definition fresh_store :: redis where
  "fresh_store = \<lparr>kv = Map.empty, faults = [], calls = []\<rparr>"

definition sample_env :: env where
  "sample_env =
     \<lparr>IsURL = (\<lambda>u. u \<noteq> ''''),
      RemoveDomainError = (\<lambda>u. u \<noteq> ''localhost:3000''),
      EnforceHTTP = (\<lambda>u. ''http://'' @ u),
      uuid_String = ''3f2a9c1e-5b7d-4e8a-9c0f-1a2b3c4d5e6f'',
      API_QUOTA = '''',
      DOMAIN = ''localhost:3000'',
      IP = ''10.0.0.1''\<rparr>"

definition sample_request :: request where
  "sample_request = \<lparr>req_URL = ''example.com'', req_CustomShort = '''', req_Expiry = 0\<rparr>"

definition taken_store :: redis where
  "taken_store = fresh_store\<lparr>kv := [''3f2a9c'' \<mapsto> (''http://old.example'', Some (3600 * Second))]\<rparr>"

definition other_request :: request where
  "other_request = \<lparr>req_URL = ''example.com'', req_CustomShort = ''10.0.0.2'', req_Expiry = 0\<rparr>"

definition flaky_store :: redis where
  "flaky_store =
     \<lparr>kv = [''mylink'' \<mapsto> (''http://old.example'', None)],
      faults = [Some ''connection reset by peer''],
      calls = []\<rparr>"

definition custom_request :: request where
  "custom_request = \<lparr>req_URL = ''example.com'', req_CustomShort = ''mylink'', req_Expiry = 0\<rparr>"


text \<open>102 requests of the sample client, one minute apart, with identifiers a, aa, aaa, ...\<close>

definition sample_steps :: "step list" where
  "sample_steps =
     map (\<lambda>n. (Minute, sample_env,
               \<lparr>req_URL = ''example.com'', req_CustomShort = replicate (Suc n) CHR ''a'',
                req_Expiry = 0\<rparr>))
         [0..<102]"

section \<open>Decimal strings\<close>

lemma is_digit_digit_char: "d < 10 \<Longrightarrow> is_digit (digit_char d)"
  by (simp add: is_digit_def digit_char_def)

lemma digit_val_digit_char: "d < 10 \<Longrightarrow> digit_val (digit_char d) = d"
  by (simp add: digit_val_def digit_char_def)

lemma parse_digits_snoc:
  "parse_digits (xs @ [c]) acc =
     (case parse_digits xs acc of
        None \<Rightarrow> None
      | Some m \<Rightarrow> if is_digit c then Some (m * 10 + digit_val c) else None)"
  by (induction xs arbitrary: acc) auto

lemma parse_digits_decimal: "parse_digits (decimal n) 0 = Some n"
proof (induction n rule: decimal.induct)
  case (1 n)
  show ?case
  proof (cases "n < 10")
    case True
    then show ?thesis
      by (simp add: decimal.simps [of n] is_digit_digit_char digit_val_digit_char)
  next
    case False
    with "1" have "parse_digits (decimal (n div 10)) 0 = Some (n div 10)" by simp
    with False show ?thesis
      by (simp add: decimal.simps [of n] parse_digits_snoc is_digit_digit_char digit_val_digit_char)
  qed
qed

lemma decimal_not_Nil: "decimal n \<noteq> []"
  by (subst decimal.simps) simp

lemma hd_decimal_digit: "is_digit (hd (decimal n))"
proof (induction n rule: decimal.induct)
  case (1 n)
  show ?case
  proof (cases "n < 10")
    case True
    then show ?thesis by (simp add: decimal.simps [of n] is_digit_digit_char)
  next
    case False
    with "1" have "is_digit (hd (decimal (n div 10)))" by simp
    with False show ?thesis
      by (simp add: decimal.simps [of n] decimal_not_Nil)
  qed
qed

lemma not_digit_signs: "\<not> is_digit CHR ''-''" "\<not> is_digit CHR ''+''"
  by (simp_all add: is_digit_def)

lemma decimal_Cons: "\<exists>c cs. decimal n = c # cs \<and> is_digit c"
  using decimal_not_Nil [of n] hd_decimal_digit [of n] by (cases "decimal n") auto

lemma atoi_itoa: "is_int64 i \<Longrightarrow> atoi (itoa i) = Some i"
proof -
  assume r: "is_int64 i"
  show ?thesis
  proof (cases "i < 0")
    case True
    then show ?thesis using r
      by (simp add: atoi_def itoa_def decimal_not_Nil parse_digits_decimal)
  next
    case False
    obtain c cs where d: "decimal (nat i) = c # cs" and c: "is_digit c"
      using decimal_Cons by blast
    from c have "c \<noteq> CHR ''-''" "c \<noteq> CHR ''+''" using not_digit_signs by auto
    moreover have "parse_digits (c # cs) 0 = Some (nat i)"
      using parse_digits_decimal [of "nat i"] d by simp
    ultimately show ?thesis using False r d
      by (simp add: atoi_def itoa_def)
  qed
qed

lemma redis_int_itoa: "is_int64 i \<Longrightarrow> redis_int (itoa i) = Some i"
  by (simp add: redis_int_def atoi_itoa)

lemma itoa_not_Nil: "itoa i \<noteq> ''''"
  by (simp add: itoa_def decimal_not_Nil)

section \<open>Store commands\<close>

lemma healthy_Suc: "healthy (Suc n) r \<Longrightarrow> fault r = None \<and> healthy n (sent ev r)"
  by (cases "faults r") (simp_all add: healthy_def fault_def sent_def)

lemma healthy_emit [simp]: "healthy n (emit ev r) = healthy n r"
  by (simp add: healthy_def emit_def)

lemma kv_sent [simp]: "kv (sent ev r) = kv r"
  by (simp add: sent_def)

lemma kv_emit [simp]: "kv (emit ev r) = kv r"
  by (simp add: emit_def)

lemma calls_sent [simp]: "calls (sent ev r) = calls r @ [ev]"
  by (simp add: sent_def)

lemma calls_emit [simp]: "calls (emit ev r) = calls r @ [ev]"
  by (simp add: emit_def)

lemma fault_upd [simp]: "fault (r\<lparr>kv := m\<rparr>) = fault r"
  by (simp add: fault_def)

lemma healthy_upd [simp]: "healthy n (r\<lparr>kv := m\<rparr>) = healthy n r"
  by (simp add: healthy_def)

lemma sent_upd: "sent ev (r\<lparr>kv := m\<rparr>) = (sent ev r)\<lparr>kv := m\<rparr>"
  by (simp add: sent_def)

lemma Get_ok:
  "fault r = None \<Longrightarrow>
   Get r key =
     ((case kv r key of None \<Rightarrow> ('''', Some Redis_Nil) | Some (v, l) \<Rightarrow> (v, None)),
      sent (E_Get key) r)"
  by (simp add: Get_def command_def split: option.splits)

lemma Set_ok:
  "fault r = None \<Longrightarrow>
   Set r key v t =
     (None, (sent (E_Set key v t) r)\<lparr>kv := (kv r)(key \<mapsto> (v, if 0 < t then Some t else None))\<rparr>)"
  by (simp add: Set_def command_def)

lemma TTL_ok:
  "fault r = None \<Longrightarrow>
   TTL r key =
     ((case kv r key of None \<Rightarrow> - 2 | Some (v, None) \<Rightarrow> - 1 | Some (v, Some l) \<Rightarrow> l, None),
      sent (E_TTL key) r)"
  by (simp add: TTL_def command_def split: option.splits)

lemma Decr_ok:
  "fault r = None \<Longrightarrow> kv r key = Some (itoa n, l) \<Longrightarrow> is_int64 n \<Longrightarrow> is_int64 (n - 1) \<Longrightarrow>
   Decr r key = (None, (sent (E_Decr key) r)\<lparr>kv := (kv r)(key \<mapsto> (itoa (n - 1), l))\<rparr>)"
  by (simp add: Decr_def command_def redis_int_itoa)

lemma Expire_ok:
  "fault r = None \<Longrightarrow> kv r key = Some (v, l) \<Longrightarrow> 0 < t \<Longrightarrow>
   Expire r key t = (None, (sent (E_Expire key t) r)\<lparr>kv := (kv r)(key \<mapsto> (v, Some t))\<rparr>)"
  by (simp add: Expire_def command_def)

section \<open>The branches of the rate limiter\<close>

lemma handleRateLimit_first:
  assumes "kv r ip = None" and "healthy 2 r"
  shows "handleRateLimit r ip quota =
     ((quota, 30 * Minute, None),
      (sent (E_Set ip (itoa quota) (30 * 60 * Second)) (sent (E_Get ip) r))
        \<lparr>kv := (kv r)(ip \<mapsto> (itoa quota, Some (30 * 60 * Second)))\<rparr>)"
proof -
  from assms(2) have f1: "fault r = None" and h1: "healthy 1 (sent (E_Get ip) r)"
    using healthy_Suc [of 1 r] by (simp_all add: numeral_2_eq_2)
  from h1 have f2: "fault (sent (E_Get ip) r) = None"
    using healthy_Suc [of 0] by simp
  show ?thesis
    using assms(1) f1 f2 by (simp add: handleRateLimit_def Get_ok Set_ok Second_def)
qed

lemma handleRateLimit_decrement:
  assumes "kv r ip = Some (itoa v, l)" and "0 < v" and "is_int64 v" and "healthy 3 r"
  shows "handleRateLimit r ip quota =
     ((v - 1, 30 * Minute, None),
      (sent (E_Expire ip (30 * 60 * Second)) (sent (E_Decr ip) (sent (E_Get ip) r)))
        \<lparr>kv := (kv r)(ip \<mapsto> (itoa (v - 1), Some (30 * 60 * Second)))\<rparr>)"
proof -
  from assms(4) have f1: "fault r = None" and h1: "healthy 2 (sent (E_Get ip) r)"
    using healthy_Suc [of 2 r] by (simp_all add: numeral_3_eq_3 numeral_2_eq_2)
  from h1 have f2: "fault (sent (E_Get ip) r) = None"
    and h2: "healthy 1 (sent (E_Decr ip) (sent (E_Get ip) r))"
    using healthy_Suc [of 1 "sent (E_Get ip) r"] by (simp_all add: numeral_2_eq_2)
  from h2 have f3: "fault (sent (E_Decr ip) (sent (E_Get ip) r)) = None"
    using healthy_Suc [of 0] by simp
  have i: "is_int64 (v - 1)" using assms(2,3) by (simp add: is_int64_def)
  show ?thesis
    using assms(1,2,3) f1 f2 f3 i
    by (simp add: handleRateLimit_def Get_ok Decr_ok Expire_ok atoi_itoa Second_def sent_upd)
qed

text \<open>
  C2. When the store answers, \<open>handleRateLimit\<close> has two success branches. If the
  client has no counter key, it creates the counter with the decimal text of the quota
  \<open>q\<close> and a lifetime of 30 minutes, and returns \<open>q\<close> itself (not \<open>q - 1\<close>) with a
  reset duration of 30 minutes. If the counter holds \<open>v > 0\<close>, it is decremented to
  \<open>v - 1\<close>, its lifetime is set to 30 minutes again, and \<open>v - 1\<close> is returned with a
  reset duration of 30 minutes.
\<close>

theorem handleRateLimit_success_branches:
  "(kv r ip = None \<and> healthy 2 r \<longrightarrow>
      fst (handleRateLimit r ip q) = (q, 30 * Minute, None) \<and>
      kv (snd (handleRateLimit r ip q)) = (kv r)(ip \<mapsto> (itoa q, Some (30 * Minute)))) \<and>
   (kv r ip = Some (itoa v, l) \<and> 0 < v \<and> is_int64 v \<and> healthy 3 r \<longrightarrow>
      fst (handleRateLimit r ip q) = (v - 1, 30 * Minute, None) \<and>
      kv (snd (handleRateLimit r ip q)) = (kv r)(ip \<mapsto> (itoa (v - 1), Some (30 * Minute))))"
  by (simp add: handleRateLimit_first handleRateLimit_decrement Minute_def)

theorem handleRateLimit_success_branches_witness:
  "fst (handleRateLimit \<lparr>kv = Map.empty, faults = [], calls = []\<rparr> ''10.0.0.1'' 100)
     = (100, 30 * Minute, None) \<and>
   fst (handleRateLimit
          \<lparr>kv = [''10.0.0.1'' \<mapsto> (itoa 5, Some 7)], faults = [], calls = []\<rparr> ''10.0.0.1'' 100)
     = (4, 30 * Minute, None)"
  using handleRateLimit_success_branches
          [of "\<lparr>kv = Map.empty, faults = [], calls = []\<rparr>" "''10.0.0.1''" 100]
        handleRateLimit_success_branches
          [of "\<lparr>kv = [''10.0.0.1'' \<mapsto> (itoa 5, Some 7)], faults = [], calls = []\<rparr>"
              "''10.0.0.1''" 100 5 "Some 7"]
  by (simp add: healthy_def is_int64_def)

section \<open>The exhausted counter\<close>

lemma snd_Get [simp]: "snd (Get r key) = sent (E_Get key) r"
  by (simp add: Get_def command_def split: option.splits prod.splits)

lemma snd_TTL [simp]: "snd (TTL r key) = sent (E_TTL key) r"
  by (simp add: TTL_def command_def split: option.splits prod.splits)

lemma atoi_is_int64: "atoi s = Some n \<Longrightarrow> is_int64 n"
  by (auto simp: atoi_def Let_def split: list.splits option.splits if_splits)

lemma redis_int_Some: "redis_int s = Some n \<Longrightarrow> atoi s = Some n \<and> s = itoa n \<and> is_int64 n"
  by (auto simp: redis_int_def atoi_is_int64 split: option.splits if_splits)

lemma healthy_3: "healthy 3 r \<Longrightarrow> fault r = None \<and> healthy 2 (sent ev r)"
  using healthy_Suc [of 2 r ev] by (simp add: numeral_3_eq_3 numeral_2_eq_2)

lemma handleRateLimit_exceeded_any:
  assumes "kv r ip = Some (s, l)" and "atoi s = Some v" and "v \<le> 0"
  shows "\<exists>n d err r'. handleRateLimit r ip q = ((n, d, Some err), r') \<and> kv r' = kv r \<and>
           (calls r' = calls r @ [E_Get ip] \<or> calls r' = calls r @ [E_Get ip, E_TTL ip])"
  using assms
  by (auto simp: handleRateLimit_def Get_def TTL_def command_def split: option.splits)

lemma handleRateLimit_exceeded_ok:
  assumes "kv r ip = Some (s, l)" and "atoi s = Some v" and "v \<le> 0" and "healthy 2 r"
  shows "fst (handleRateLimit r ip q) =
           (0, (case l of None \<Rightarrow> - 1 | Some t \<Rightarrow> t), Some (Errorf ''rate limit exceeded''))"
proof -
  from assms(4) have f1: "fault r = None" and h1: "healthy 1 (sent (E_Get ip) r)"
    using healthy_Suc [of 1 r] by (simp_all add: numeral_2_eq_2)
  from h1 have f2: "fault (sent (E_Get ip) r) = None"
    using healthy_Suc [of 0] by simp
  show ?thesis
    using assms(1,2,3) f1 f2
    by (simp add: handleRateLimit_def Get_ok TTL_ok split: option.splits)
qed

lemma ShortenURL_exceeded:
  assumes "kv r (IP e) = Some (s, l)" and "atoi s = Some v" and "v \<le> 0"
  shows "kv (snd (ShortenURL e parsed r)) = kv r \<and>
         fst (fst (ShortenURL e parsed r)) \<noteq> StatusOK \<and>
         (\<exists>evs. calls (snd (ShortenURL e parsed r)) = calls r @ evs \<and> \<not> list_ex mutating evs)"
proof (cases parsed)
  case None
  then show ?thesis by (simp add: ShortenURL_def StatusOK_def StatusBadRequest_def)
next
  case (Some body)
  let ?u = "req_URL body"
  let ?r3 = "emit (E_EnforceHTTP ?u) (emit (E_RemoveDomainError ?u) (emit (E_IsURL ?u) r))"
  let ?id = "resolve_id e body"
  obtain val er where g: "Get ?r3 ?id = ((val, er), sent (E_Get ?id) ?r3)"
    by (metis snd_Get prod.collapse)
  have "kv (sent (E_Get ?id) ?r3) (IP e) = Some (s, l)" using assms(1) by simp
  from handleRateLimit_exceeded_any [OF this assms(2,3), of "quota_of e"]
  obtain n d err r'
    where h: "handleRateLimit (sent (E_Get ?id) ?r3) (IP e) (quota_of e) = ((n, d, Some err), r')"
    and k: "kv r' = kv r"
    and c: "calls r' = calls (sent (E_Get ?id) ?r3) @ [E_Get (IP e)] \<or>
            calls r' = calls (sent (E_Get ?id) ?r3) @ [E_Get (IP e), E_TTL (IP e)]"
    by auto
  show ?thesis
    using Some g h k c
    by (auto simp: ShortenURL_def Let_def StatusOK_def StatusBadRequest_def StatusForbidden_def
                   StatusServiceUnavailable_def)
qed

lemma ShortenURL_exceeded_reply:
  assumes "kv r (IP e) = Some (s, l)" and "atoi s = Some v" and "v \<le> 0"
    and "healthy 3 r" and "IsURL e (req_URL body)" and "RemoveDomainError e (req_URL body)"
    and "kv r (resolve_id e body) = None"
  shows "fst (ShortenURL e (Some body) r) =
           (StatusServiceUnavailable,
            Limit_Body (Errorf ''rate limit exceeded'')
              (go_quot (go_quot (case l of None \<Rightarrow> - 1 | Some t \<Rightarrow> t) Second) Minute))"
proof -
  let ?u = "req_URL body"
  let ?r3 = "emit (E_EnforceHTTP ?u) (emit (E_RemoveDomainError ?u) (emit (E_IsURL ?u) r))"
  let ?id = "resolve_id e body"
  from assms(4) have f: "fault ?r3 = None" and h: "healthy 2 (sent (E_Get ?id) ?r3)"
    using healthy_3 [of ?r3 "E_Get ?id"] by simp_all
  have g: "Get ?r3 ?id = (('''', Some Redis_Nil), sent (E_Get ?id) ?r3)"
    using f assms(7) by (simp add: Get_ok)
  have "kv (sent (E_Get ?id) ?r3) (IP e) = Some (s, l)" using assms(1) by simp
  from handleRateLimit_exceeded_ok [OF this assms(2,3) h, of "quota_of e"]
  obtain r' where h': "handleRateLimit (sent (E_Get ?id) ?r3) (IP e) (quota_of e) =
      ((0, (case l of None \<Rightarrow> - 1 | Some t \<Rightarrow> t), Some (Errorf ''rate limit exceeded'')), r')"
    by (cases "handleRateLimit (sent (E_Get ?id) ?r3) (IP e) (quota_of e)") auto
  show ?thesis
    using assms(5,6) g h' by (simp add: ShortenURL_def Let_def)
qed

text \<open>
  C3. When the client's counter exists and holds a value that is at most 0, the rate
  limiter leaves the store as it is and sends no \<open>SET\<close>, \<open>DECR\<close> or \<open>EXPIRE\<close>,
  whatever the store answers; when the store answers, it fails with the error
  \<open>rate limit exceeded\<close> and returns the lifetime the store reports for the counter
  key. A registration by that client never succeeds and writes nothing, and a valid
  one for an unused identifier is answered with that error.
\<close>

theorem rate_limit_exceeded_read_only:
  assumes "kv r ip = Some (s, l)" and "atoi s = Some v" and "v \<le> 0"
  shows "kv (snd (handleRateLimit r ip q)) = kv r \<and>
         (\<exists>evs. calls (snd (handleRateLimit r ip q)) = calls r @ evs \<and> \<not> list_ex mutating evs) \<and>
         (healthy 2 r \<longrightarrow>
            fst (handleRateLimit r ip q) =
              (0, (case l of None \<Rightarrow> - 1 | Some t \<Rightarrow> t), Some (Errorf ''rate limit exceeded''))) \<and>
         (IP e = ip \<longrightarrow>
            kv (snd (ShortenURL e parsed r)) = kv r \<and>
            fst (fst (ShortenURL e parsed r)) \<noteq> StatusOK \<and>
            (\<exists>evs. calls (snd (ShortenURL e parsed r)) = calls r @ evs \<and> \<not> list_ex mutating evs)) \<and>
         (IP e = ip \<and> healthy 3 r \<and> IsURL e (req_URL body) \<and> RemoveDomainError e (req_URL body) \<and>
          kv r (resolve_id e body) = None \<longrightarrow>
            fst (ShortenURL e (Some body) r) =
              (StatusServiceUnavailable,
               Limit_Body (Errorf ''rate limit exceeded'')
                 (go_quot (go_quot (case l of None \<Rightarrow> - 1 | Some t \<Rightarrow> t) Second) Minute)))"
proof -
  from handleRateLimit_exceeded_any [OF assms, of q]
  have a: "kv (snd (handleRateLimit r ip q)) = kv r"
    and b: "\<exists>evs. calls (snd (handleRateLimit r ip q)) = calls r @ evs \<and> \<not> list_ex mutating evs"
    by auto
  have c: "healthy 2 r \<longrightarrow>
            fst (handleRateLimit r ip q) =
              (0, (case l of None \<Rightarrow> - 1 | Some t \<Rightarrow> t), Some (Errorf ''rate limit exceeded''))"
    using handleRateLimit_exceeded_ok [OF assms] by simp
  have d: "IP e = ip \<longrightarrow>
            kv (snd (ShortenURL e parsed r)) = kv r \<and>
            fst (fst (ShortenURL e parsed r)) \<noteq> StatusOK \<and>
            (\<exists>evs. calls (snd (ShortenURL e parsed r)) = calls r @ evs \<and> \<not> list_ex mutating evs)"
    using ShortenURL_exceeded [of r e s l v parsed] assms by blast
  have f: "IP e = ip \<and> healthy 3 r \<and> IsURL e (req_URL body) \<and> RemoveDomainError e (req_URL body) \<and>
          kv r (resolve_id e body) = None \<longrightarrow>
            fst (ShortenURL e (Some body) r) =
              (StatusServiceUnavailable,
               Limit_Body (Errorf ''rate limit exceeded'')
                 (go_quot (go_quot (case l of None \<Rightarrow> - 1 | Some t \<Rightarrow> t) Second) Minute))"
    using ShortenURL_exceeded_reply [of r e s l v body] assms by blast
  from a b c d f show ?thesis by blast
qed

theorem rate_limit_exceeded_read_only_witness:
  "kv (fresh_store\<lparr>kv := [''10.0.0.1'' \<mapsto> (itoa 0, Some (5 * Minute))]\<rparr>) ''10.0.0.1''
     = Some (itoa 0, Some (5 * Minute)) \<and>
   atoi (itoa 0) = Some 0 \<and>
   fst (handleRateLimit (fresh_store\<lparr>kv := [''10.0.0.1'' \<mapsto> (itoa 0, Some (5 * Minute))]\<rparr>)
          ''10.0.0.1'' 100)
     = (0, 5 * Minute, Some (Errorf ''rate limit exceeded'')) \<and>
   fst (ShortenURL sample_env (Some sample_request)
          (fresh_store\<lparr>kv := [''10.0.0.1'' \<mapsto> (itoa 0, Some (5 * Minute))]\<rparr>))
     = (StatusServiceUnavailable,
        Limit_Body (Errorf ''rate limit exceeded'') (go_quot (go_quot (5 * Minute) Second) Minute))"
  using rate_limit_exceeded_read_only
          [of "fresh_store\<lparr>kv := [''10.0.0.1'' \<mapsto> (itoa 0, Some (5 * Minute))]\<rparr>"
              "''10.0.0.1''" "itoa 0" "Some (5 * Minute)" 0 100 sample_env
              "Some sample_request" sample_request]
  by (simp add: atoi_itoa is_int64_def healthy_def fresh_store_def sample_env_def
                sample_request_def resolve_id_def)

section \<open>The counter invariant\<close>

lemma counter_ok_handleRateLimit:
  assumes "counter_ok q (kv r ip)" and "0 \<le> q" and "is_int64 q"
  shows "counter_ok q (kv (snd (handleRateLimit r ip q)) ip)"
proof (cases "kv r ip")
  case None
  then show ?thesis using assms(2,3)
    by (auto simp: handleRateLimit_def Get_def Set_def command_def counter_ok_def redis_int_itoa
             split: option.splits)
next
  case (Some x)
  obtain s l where x: "x = (s, l)" by (cases x)
  from assms(1) Some x obtain n where n: "redis_int s = Some n" "0 \<le> n" "n \<le> q"
    by (auto simp: counter_ok_def split: option.splits)
  from n(1) have a: "atoi s = Some n" "s = itoa n" "is_int64 n"
    using redis_int_Some by blast+
  have i: "0 < n \<Longrightarrow> is_int64 (n - 1)" using a(3) by (simp add: is_int64_def)
  show ?thesis using Some x n a(1,3) i assms(1)
    by (auto simp: handleRateLimit_def Get_def TTL_def Decr_def Expire_def command_def
                   counter_ok_def redis_int_itoa Second_def
             split: option.splits)
qed

lemma counter_ok_elapse: "counter_ok q (kv r ip) \<Longrightarrow> counter_ok q (kv (elapse d r) ip)"
  by (auto simp: counter_ok_def elapse_def split: option.splits)

lemma snd_rate_calls_Cons:
  "snd (rate_calls r ip q (g # gs)) =
     snd (rate_calls (snd (handleRateLimit (elapse g r) ip q)) ip q gs)"
  by (simp split: prod.splits)

lemma fst_rate_calls_Cons:
  "fst (rate_calls r ip q (g # gs)) =
     fst (handleRateLimit (elapse g r) ip q) #
     fst (rate_calls (snd (handleRateLimit (elapse g r) ip q)) ip q gs)"
  by (simp split: prod.splits)

lemma counter_ok_rate_calls:
  "counter_ok q (kv r ip) \<Longrightarrow> 0 \<le> q \<Longrightarrow> is_int64 q \<Longrightarrow>
   counter_ok q (kv (snd (rate_calls r ip q gs)) ip)"
proof (induction gs arbitrary: r)
  case Nil
  then show ?case by simp
next
  case (Cons g gs)
  have "counter_ok q (kv (snd (handleRateLimit (elapse g r) ip q)) ip)"
    using Cons.prems by (simp add: counter_ok_handleRateLimit counter_ok_elapse)
  from Cons.IH [OF this Cons.prems(2,3)] show ?case
    by (simp only: snd_rate_calls_Cons)
qed

text \<open>
  C9. Starting from a store without a counter for the client, after any sequence of
  rate-limit checks with a fixed quota \<open>q\<close> (a non-negative \<open>int\<close>), whatever time
  passes between them and whichever commands fail, the client's counter is either
  absent or holds an integer \<open>n\<close> with \<open>0 \<le> n \<le> q\<close>.
\<close>

theorem counter_within_quota:
  assumes "kv r ip = None" and "0 \<le> q" and "is_int64 q"
  shows "counter_ok q (kv (snd (rate_calls r ip q gs)) ip)"
proof -
  have "counter_ok q (kv r ip)" using assms(1) by (simp add: counter_ok_def)
  then show ?thesis using assms(2,3) by (rule counter_ok_rate_calls)
qed

theorem counter_within_quota_witness:
  "kv fresh_store ''10.0.0.1'' = None \<and> (0::int) \<le> 100 \<and> is_int64 100 \<and>
   counter_ok 100 (kv (snd (rate_calls fresh_store ''10.0.0.1'' 100 [0, Minute, 0])) ''10.0.0.1'')"
  using counter_within_quota [of fresh_store "''10.0.0.1''" 100 "[0, Minute, 0]"]
  by (simp add: is_int64_def fresh_store_def)

section \<open>Time between requests\<close>

lemma faults_sent: "faults r = [] \<Longrightarrow> faults (sent ev r) = []"
  by (simp add: sent_def)

lemma healthy_no_faults: "faults r = [] \<Longrightarrow> healthy n r"
  by (simp add: healthy_def)

lemma faults_elapse [simp]: "faults (elapse g r) = faults r"
  by (simp add: elapse_def)

lemma kv_elapse_None: "kv r k = None \<Longrightarrow> kv (elapse g r) k = None"
  by (simp add: elapse_def)

lemma kv_elapse_live:
  "kv r k = Some (s, Some t) \<Longrightarrow> g < t \<Longrightarrow> kv (elapse g r) k = Some (s, Some (t - g))"
  by (simp add: elapse_def)

lemma reset_field_minutes:
  "0 \<le> d \<Longrightarrow> d \<le> 30 * Minute \<Longrightarrow> go_quot (go_quot d Second) Minute = 0"
  "go_quot (go_quot (30 * Minute) Nanosecond) Minute = 30"
  by (simp_all add: go_quot_def Minute_def Second_def Nanosecond_def)

lemma split_ends:
  assumes "length gs = Suc (Suc n)"
  shows "\<exists>g0 mid gl. gs = g0 # mid @ [gl] \<and> length mid = n"
proof -
  from assms obtain g0 rest where a: "gs = g0 # rest" "length rest = Suc n"
    by (cases gs) auto
  then have "rest \<noteq> []" by auto
  then obtain mid gl where b: "rest = mid @ [gl]" by (cases rest rule: rev_cases) auto
  with a show ?thesis by auto
qed

section \<open>Registration\<close>

lemma healthy_pos: "0 < n \<Longrightarrow> healthy n r \<Longrightarrow> fault r = None"
  by (cases n) (auto dest: healthy_Suc)

lemma healthy_pred:
  assumes "healthy n r"
  shows "healthy (n - 1) (sent ev r)"
proof (cases n)
  case 0
  then show ?thesis by (simp add: healthy_def)
next
  case (Suc m)
  with assms healthy_Suc [of m r ev] show ?thesis by simp
qed

lemma healthy_mono: "m \<le> n \<Longrightarrow> healthy n r \<Longrightarrow> healthy m r"
  by (auto simp: healthy_def list_all_iff dest: in_set_takeD set_take_subset_set_take [THEN subsetD])

lemma go_mul_expiry:
  assumes "- 2562047 \<le> x" and "x \<le> 2562047"
  shows "go_mul (go_mul x 3600) Second = x * 3600 * Second"
proof -
  have a: "wrap64 (x * 3600) = x * 3600"
    using assms by (simp add: wrap64_def)
  have "- (2 ^ 63) \<le> x * 3600 * 1000000000" "x * 3600 * 1000000000 < (2 ^ 63 :: int)"
    using assms by simp_all
  then have "wrap64 (x * 3600 * 1000000000) = x * 3600 * 1000000000"
    by (simp add: wrap64_def)
  with a show ?thesis by (simp add: go_mul_def Second_def)
qed

lemma snd_Set_calls [simp]: "calls (snd (Set r key v t)) = calls r @ [E_Set key v t]"
  by (simp add: Set_def command_def split: option.splits)

lemma handleRateLimit_calls:
  "\<exists>rl. rl \<in> {[E_Get ip],
              [E_Get ip, E_Set ip (itoa q) (30 * 60 * Second)],
              [E_Get ip, E_TTL ip],
              [E_Get ip, E_Decr ip],
              [E_Get ip, E_Decr ip, E_Expire ip (30 * 60 * Second)]} \<and>
        calls (snd (handleRateLimit r ip q)) = calls r @ rl"
  by (auto simp: handleRateLimit_def Get_def Set_def TTL_def Decr_def Expire_def command_def
           split: option.splits)

lemma ShortenURL_in_use:
  assumes "IsURL e (req_URL body)" and "RemoveDomainError e (req_URL body)"
    and "kv r (resolve_id e body) = Some (v, l)" and "v \<noteq> ''''" and "healthy 1 r"
  shows "ShortenURL e (Some body) r =
           ((StatusForbidden, Error_Body ''URL short already in use''),
            sent (E_Get (resolve_id e body))
              (emit (E_EnforceHTTP (req_URL body))
                (emit (E_RemoveDomainError (req_URL body)) (emit (E_IsURL (req_URL body)) r))))"
proof -
  let ?u = "req_URL body"
  let ?r3 = "emit (E_EnforceHTTP ?u) (emit (E_RemoveDomainError ?u) (emit (E_IsURL ?u) r))"
  have f: "fault ?r3 = None" using assms(5) healthy_pos [of 1 ?r3] by simp
  have "Get ?r3 (resolve_id e body) = ((v, None), sent (E_Get (resolve_id e body)) ?r3)"
    using f assms(3) by (simp add: Get_ok)
  then show ?thesis using assms(1,2,4) by (simp add: ShortenURL_def Let_def)
qed

lemma ShortenURL_success:
  assumes "IsURL e (req_URL body)" and "RemoveDomainError e (req_URL body)"
    and "kv r (resolve_id e body) = None" and "healthy 5 r"
    and "kv r (IP e) = None \<or> (\<exists>v l. kv r (IP e) = Some (itoa v, l) \<and> 0 < v \<and> is_int64 v)"
  shows "\<exists>rem r5.
           kv r5 = (kv r)(IP e \<mapsto> (itoa rem, Some (30 * Minute))) \<and>
           ShortenURL e (Some body) r =
             ((StatusOK,
               Response_Body
                 \<lparr>resp_URL = EnforceHTTP e (req_URL body),
                  resp_CustomShort = DOMAIN e @ ''/'' @ resolve_id e body,
                  resp_Expiry = (if req_Expiry body = 0 then 24 else req_Expiry body),
                  XRateRemaining = rem,
                  XRateLimitReset = go_quot (go_quot (30 * Minute) Nanosecond) Minute\<rparr>),
              (sent (E_Set (resolve_id e body) (EnforceHTTP e (req_URL body))
                      (go_mul (go_mul (if req_Expiry body = 0 then 24 else req_Expiry body) 3600) Second))
                 r5)
                \<lparr>kv := (kv r5)(resolve_id e body \<mapsto>
                   (EnforceHTTP e (req_URL body),
                    if 0 < go_mul (go_mul (if req_Expiry body = 0 then 24 else req_Expiry body) 3600) Second
                    then Some (go_mul (go_mul (if req_Expiry body = 0 then 24 else req_Expiry body) 3600) Second)
                    else None))\<rparr>)"
proof -
  let ?u = "req_URL body"
  let ?r3 = "emit (E_EnforceHTTP ?u) (emit (E_RemoveDomainError ?u) (emit (E_IsURL ?u) r))"
  let ?id = "resolve_id e body"
  let ?r4 = "sent (E_Get ?id) ?r3"
  let ?ip = "IP e"
  let ?q = "quota_of e"
  have f3: "fault ?r3 = None" using assms(4) healthy_pos [of 5 ?r3] by simp
  have h4: "healthy 4 ?r4" using assms(4) healthy_pred [of 5 ?r3 "E_Get ?id"] by simp
  have g: "Get ?r3 ?id = (('''', Some Redis_Nil), ?r4)"
    using f3 assms(3) by (simp add: Get_ok)
  have "\<exists>rem r5. handleRateLimit ?r4 ?ip ?q = ((rem, 30 * Minute, None), r5) \<and>
          kv r5 = (kv r)(?ip \<mapsto> (itoa rem, Some (30 * Minute))) \<and> fault r5 = None"
  proof (cases "kv r ?ip")
    case None
    then have k: "kv ?r4 ?ip = None" by simp
    have h2: "healthy 2 ?r4" using h4 by (rule healthy_mono [rotated]) simp
    have "healthy 3 (sent (E_Get ?ip) ?r4)" using healthy_pred [OF h4] by simp
    then have "healthy 2 (sent (E_Set ?ip (itoa ?q) (30 * 60 * Second)) (sent (E_Get ?ip) ?r4))"
      using healthy_pred [of 3] by fastforce
    then have "fault (sent (E_Set ?ip (itoa ?q) (30 * 60 * Second)) (sent (E_Get ?ip) ?r4)) = None"
      using healthy_pos [of 2] by simp
    then show ?thesis
      unfolding handleRateLimit_first [OF k h2] by (simp add: Minute_def)
  next
    case (Some x)
    with assms(5) obtain v l where x: "kv r ?ip = Some (itoa v, l)" "0 < v" "is_int64 v" by auto
    then have k: "kv ?r4 ?ip = Some (itoa v, l)" by simp
    have h3: "healthy 3 ?r4" using h4 by (rule healthy_mono [rotated]) simp
    have "healthy 3 (sent (E_Get ?ip) ?r4)" using healthy_pred [OF h4] by simp
    then have "healthy 2 (sent (E_Decr ?ip) (sent (E_Get ?ip) ?r4))"
      using healthy_pred [of 3] by fastforce
    then have "healthy 1 (sent (E_Expire ?ip (30 * 60 * Second)) (sent (E_Decr ?ip) (sent (E_Get ?ip) ?r4)))"
      using healthy_pred [of 2] by fastforce
    then have "fault (sent (E_Expire ?ip (30 * 60 * Second)) (sent (E_Decr ?ip) (sent (E_Get ?ip) ?r4))) = None"
      using healthy_pos [of 1] by simp
    then show ?thesis
      unfolding handleRateLimit_decrement [OF k x(2,3) h3] by (simp add: Minute_def)
  qed
  then obtain rem r5 where h: "handleRateLimit ?r4 ?ip ?q = ((rem, 30 * Minute, None), r5)"
    and k5: "kv r5 = (kv r)(?ip \<mapsto> (itoa rem, Some (30 * Minute)))" and f5: "fault r5 = None"
    by blast
  have "ShortenURL e (Some body) r =
             ((StatusOK,
               Response_Body
                 \<lparr>resp_URL = EnforceHTTP e (req_URL body),
                  resp_CustomShort = DOMAIN e @ ''/'' @ resolve_id e body,
                  resp_Expiry = (if req_Expiry body = 0 then 24 else req_Expiry body),
                  XRateRemaining = rem,
                  XRateLimitReset = go_quot (go_quot (30 * Minute) Nanosecond) Minute\<rparr>),
              (sent (E_Set (resolve_id e body) (EnforceHTTP e (req_URL body))
                      (go_mul (go_mul (if req_Expiry body = 0 then 24 else req_Expiry body) 3600) Second))
                 r5)
                \<lparr>kv := (kv r5)(resolve_id e body \<mapsto>
                   (EnforceHTTP e (req_URL body),
                    if 0 < go_mul (go_mul (if req_Expiry body = 0 then 24 else req_Expiry body) 3600) Second
                    then Some (go_mul (go_mul (if req_Expiry body = 0 then 24 else req_Expiry body) 3600) Second)
                    else None))\<rparr>)"
    using assms(1,2) g h f5 by (simp add: ShortenURL_def Let_def Set_ok)
  with k5 show ?thesis by blast
qed

lemma sample_success:
  "\<exists>rem r5.
     kv r5 = (kv fresh_store)(''10.0.0.1'' \<mapsto> (itoa rem, Some (30 * Minute))) \<and>
     ShortenURL sample_env (Some (sample_request\<lparr>req_Expiry := x\<rparr>)) fresh_store =
       ((StatusOK,
         Response_Body
           \<lparr>resp_URL = ''http://example.com'',
            resp_CustomShort = ''localhost:3000/3f2a9c'',
            resp_Expiry = (if x = 0 then 24 else x),
            XRateRemaining = rem,
            XRateLimitReset = go_quot (go_quot (30 * Minute) Nanosecond) Minute\<rparr>),
        (sent (E_Set ''3f2a9c'' ''http://example.com''
                (go_mul (go_mul (if x = 0 then 24 else x) 3600) Second)) r5)
          \<lparr>kv := (kv r5)(''3f2a9c'' \<mapsto>
             (''http://example.com'',
              if 0 < go_mul (go_mul (if x = 0 then 24 else x) 3600) Second
              then Some (go_mul (go_mul (if x = 0 then 24 else x) 3600) Second)
              else None))\<rparr>)"
proof -
  let ?b = "sample_request\<lparr>req_Expiry := x\<rparr>"
  have v: "IsURL sample_env (req_URL ?b)" "RemoveDomainError sample_env (req_URL ?b)"
    by (simp_all add: sample_env_def sample_request_def)
  have id: "resolve_id sample_env ?b = ''3f2a9c''"
    by (simp add: resolve_id_def sample_env_def sample_request_def)
  have k: "kv fresh_store (resolve_id sample_env ?b) = None" by (simp add: fresh_store_def)
  have h: "healthy 5 fresh_store" by (simp add: healthy_def fresh_store_def)
  have c: "kv fresh_store (IP sample_env) = None \<or>
           (\<exists>v l. kv fresh_store (IP sample_env) = Some (itoa v, l) \<and> 0 < v \<and> is_int64 v)"
    by (simp add: fresh_store_def)
  have e1: "EnforceHTTP sample_env (req_URL ?b) = ''http://example.com''"
    and e2: "DOMAIN sample_env @ ''/'' @ ''3f2a9c'' = ''localhost:3000/3f2a9c''"
    and e3: "req_Expiry ?b = x"
    and e4: "IP sample_env = ''10.0.0.1''"
    by (simp_all add: sample_env_def sample_request_def)
  from ShortenURL_success [OF v k h c] show ?thesis
    by (simp only: id e1 e2 e3 e4)
qed

lemma ShortenURL_write_step:
  assumes "fst (fst (ShortenURL e (Some body) r)) = StatusOK \<or>
           fst (fst (ShortenURL e (Some body) r)) = StatusInternalServerError"
  shows "\<exists>r5 rem ex.
           ShortenURL e (Some body) r =
             (case Set r5 (resolve_id e body) (EnforceHTTP e (req_URL body))
                     (go_mul (go_mul (if req_Expiry body = 0 then 24 else req_Expiry body) 3600) Second) of
                (Some err, r6) \<Rightarrow>
                  ((StatusInternalServerError, Error_Body ''unable to connect to server''), r6)
              | (None, r6) \<Rightarrow>
                  ((StatusOK,
                    Response_Body
                      \<lparr>resp_URL = EnforceHTTP e (req_URL body),
                       resp_CustomShort = DOMAIN e @ ''/'' @ resolve_id e body,
                       resp_Expiry = (if req_Expiry body = 0 then 24 else req_Expiry body),
                       XRateRemaining = rem,
                       XRateLimitReset = go_quot (go_quot ex Nanosecond) Minute\<rparr>), r6))"
proof -
  let ?u = "req_URL body"
  let ?r3 = "emit (E_EnforceHTTP ?u) (emit (E_RemoveDomainError ?u) (emit (E_IsURL ?u) r))"
  let ?id = "resolve_id e body"
  let ?r4 = "sent (E_Get ?id) ?r3"
  obtain val er where g: "Get ?r3 ?id = ((val, er), ?r4)"
    by (metis snd_Get prod.collapse)
  obtain rem ex err r5 where h: "handleRateLimit ?r4 (IP e) (quota_of e) = ((rem, ex, err), r5)"
    by (metis prod.collapse)
  have valid: "IsURL e ?u" and allowed: "RemoveDomainError e ?u"
    using assms
    by (auto simp: ShortenURL_def Let_def StatusOK_def StatusInternalServerError_def
                   StatusBadRequest_def StatusServiceUnavailable_def split: if_splits)
  have free: "val = ''''"
    using assms valid allowed g
    by (auto simp: ShortenURL_def Let_def StatusOK_def StatusInternalServerError_def
                   StatusForbidden_def split: if_splits)
  have none: "err = None"
    using assms valid allowed g free h
    by (cases err)
       (auto simp: ShortenURL_def Let_def StatusOK_def StatusInternalServerError_def
                   StatusServiceUnavailable_def)
  show ?thesis
    using valid allowed g free h none
    by (intro exI [of _ r5] exI [of _ rem] exI [of _ ex]) (simp add: ShortenURL_def Let_def)
qed

section \<open>Identifiers in use\<close>

text \<open>
  C5. A request that passes validation and whose identifier (custom or generated)
  holds a value in the store, the lookup being answered, is refused with status 403
  and the error \<open>URL short already in use\<close>; the store is left as it was, and
  the only command sent is the lookup. (A stored value is never empty: the handler
  writes URLs and decimal counters.)
\<close>

theorem identifier_in_use:
  assumes "IsURL e (req_URL body)" and "RemoveDomainError e (req_URL body)"
    and "kv r (resolve_id e body) = Some (v, l)" and "v \<noteq> ''''" and "healthy 1 r"
  shows "fst (ShortenURL e (Some body) r) = (StatusForbidden, Error_Body ''URL short already in use'') \<and>
         kv (snd (ShortenURL e (Some body) r)) = kv r \<and>
         calls (snd (ShortenURL e (Some body) r)) =
           calls r @ [E_IsURL (req_URL body), E_RemoveDomainError (req_URL body),
                      E_EnforceHTTP (req_URL body), E_Get (resolve_id e body)]"
  by (simp add: ShortenURL_in_use [OF assms])

theorem identifier_in_use_witness:
  "IsURL sample_env (req_URL sample_request) \<and>
   RemoveDomainError sample_env (req_URL sample_request) \<and>
   kv taken_store (resolve_id sample_env sample_request)
     = Some (''http://old.example'', Some (3600 * Second)) \<and>
   healthy 1 taken_store \<and>
   fst (ShortenURL sample_env (Some sample_request) taken_store)
     = (StatusForbidden, Error_Body ''URL short already in use'') \<and>
   kv (snd (ShortenURL sample_env (Some sample_request) taken_store)) = kv taken_store"
  using identifier_in_use [of sample_env sample_request taken_store
                              "''http://old.example''" "Some (3600 * Second)"]
  by (simp add: sample_env_def sample_request_def taken_store_def fresh_store_def
                resolve_id_def healthy_def)

text \<open>
  C10. Counters and mappings live in the same keys. A request that passes validation
  and whose identifier is a key holding a rate-limit counter (a decimal integer, as
  \<open>handleRateLimit\<close> and \<open>DECR\<close> write it) is refused with status 403 and
  the error \<open>URL short already in use\<close>, the lookup being answered.
\<close>

theorem counter_key_in_use:
  assumes "IsURL e (req_URL body)" and "RemoveDomainError e (req_URL body)"
    and "kv r (resolve_id e body) = Some (itoa n, l)" and "healthy 1 r"
  shows "fst (ShortenURL e (Some body) r) = (StatusForbidden, Error_Body ''URL short already in use'')"
  by (simp add: ShortenURL_in_use [OF assms(1,2,3) itoa_not_Nil assms(4)])

theorem counter_key_in_use_witness:
  "IsURL sample_env (req_URL other_request) \<and>
   RemoveDomainError sample_env (req_URL other_request) \<and>
   kv (snd (handleRateLimit fresh_store ''10.0.0.2'' 100)) (resolve_id sample_env other_request)
     = Some (itoa 100, Some (30 * 60 * Second)) \<and>
   healthy 1 (snd (handleRateLimit fresh_store ''10.0.0.2'' 100)) \<and>
   fst (ShortenURL sample_env (Some other_request) (snd (handleRateLimit fresh_store ''10.0.0.2'' 100)))
     = (StatusForbidden, Error_Body ''URL short already in use'')"
proof -
  have k: "kv fresh_store ''10.0.0.2'' = None" and h: "healthy 2 fresh_store"
    by (simp_all add: fresh_store_def healthy_def)
  have s: "kv (snd (handleRateLimit fresh_store ''10.0.0.2'' 100)) (resolve_id sample_env other_request)
             = Some (itoa 100, Some (30 * 60 * Second))"
    and h1: "healthy 1 (snd (handleRateLimit fresh_store ''10.0.0.2'' 100))"
    unfolding handleRateLimit_first [OF k h]
    by (simp_all add: resolve_id_def other_request_def healthy_def sent_def fresh_store_def)
  have v: "IsURL sample_env (req_URL other_request)" "RemoveDomainError sample_env (req_URL other_request)"
    by (simp_all add: sample_env_def other_request_def)
  from counter_key_in_use [OF v s h1] v s h1 show ?thesis by simp
qed

text \<open>
  C6 does not hold of the code. The error of the lookup is discarded: when the lookup
  fails, an identifier that is in use is taken for a free one, the request is answered
  with status 200 and the existing mapping is overwritten.
\<close>

theorem lookup_failure_ignored:
  "fst (fst (ShortenURL sample_env (Some custom_request) flaky_store)) = StatusOK \<and>
   kv flaky_store ''mylink'' = Some (''http://old.example'', None) \<and>
   kv (snd (ShortenURL sample_env (Some custom_request) flaky_store)) ''mylink''
     = Some (''http://example.com'', Some (24 * 3600 * Second))"
proof -
  let ?r3 = "emit (E_EnforceHTTP ''example.com'')
               (emit (E_RemoveDomainError ''example.com'') (emit (E_IsURL ''example.com'') flaky_store))"
  let ?r4 = "sent (E_Get ''mylink'') ?r3"
  have g: "Get ?r3 ''mylink'' = (('''', Some (Redis_Error ''connection reset by peer'')), ?r4)"
    by (simp add: Get_def command_def fault_def emit_def flaky_store_def)
  have k: "kv ?r4 ''10.0.0.1'' = None" by (simp add: flaky_store_def)
  have h: "healthy 2 ?r4" by (simp add: healthy_def sent_def emit_def flaky_store_def)
  note rl = handleRateLimit_first [OF k h, of 100]
  have q: "quota_of sample_env = 100" by (simp add: quota_of_def sample_env_def atoi_def)
  have t: "go_mul (go_mul 24 3600) Second = 24 * 3600 * Second"
    by (rule go_mul_expiry) simp_all
  have f: "fault (sent (E_Set ''10.0.0.1'' (itoa 100) (30 * 60 * Second)) (sent (E_Get ''10.0.0.1'') ?r4)) = None"
    by (simp add: fault_def sent_def emit_def flaky_store_def)
  show ?thesis
    using g rl q t f
    by (simp add: ShortenURL_def Let_def sample_env_def custom_request_def resolve_id_def
                  Set_ok Second_def flaky_store_def)
qed

section \<open>The order of the calls\<close>

text \<open>
  C1. The calls of one request whose body parses, in order, are a prefix of: the URL
  check, the domain check, the scheme normalisation, the lookup of the identifier, the
  calls of the rate limiter (which start with its own lookup of the client's counter),
  and the write of the mapping. The prefix is never empty, and a request answered with
  status 200 has made all of these calls, the write last.
\<close>

theorem ShortenURL_call_order:
  "\<exists>rl n.
     rl \<in> {[E_Get (IP e)],
           [E_Get (IP e), E_Set (IP e) (itoa (quota_of e)) (30 * 60 * Second)],
           [E_Get (IP e), E_TTL (IP e)],
           [E_Get (IP e), E_Decr (IP e)],
           [E_Get (IP e), E_Decr (IP e), E_Expire (IP e) (30 * 60 * Second)]} \<and>
     1 \<le> n \<and>
     calls (snd (ShortenURL e (Some body) r)) =
       calls r @
       take n ([E_IsURL (req_URL body), E_RemoveDomainError (req_URL body),
                E_EnforceHTTP (req_URL body), E_Get (resolve_id e body)] @
               rl @
               [E_Set (resolve_id e body) (EnforceHTTP e (req_URL body))
                  (go_mul (go_mul (if req_Expiry body = 0 then 24 else req_Expiry body) 3600)
                     Second)]) \<and>
     (fst (fst (ShortenURL e (Some body) r)) = StatusOK \<longrightarrow> n = 4 + length rl + 1)"
proof -
  let ?u = "req_URL body"
  let ?r3 = "emit (E_EnforceHTTP ?u) (emit (E_RemoveDomainError ?u) (emit (E_IsURL ?u) r))"
  let ?id = "resolve_id e body"
  let ?r4 = "sent (E_Get ?id) ?r3"
  let ?ip = "IP e"
  let ?q = "quota_of e"
  let ?opts = "{[E_Get ?ip],
           [E_Get ?ip, E_Set ?ip (itoa ?q) (30 * 60 * Second)],
           [E_Get ?ip, E_TTL ?ip],
           [E_Get ?ip, E_Decr ?ip],
           [E_Get ?ip, E_Decr ?ip, E_Expire ?ip (30 * 60 * Second)]}"
  let ?pre = "[E_IsURL ?u, E_RemoveDomainError ?u, E_EnforceHTTP ?u, E_Get ?id]"
  let ?w = "E_Set ?id (EnforceHTTP e ?u)
              (go_mul (go_mul (if req_Expiry body = 0 then 24 else req_Expiry body) 3600) Second)"
  let ?out = "ShortenURL e (Some body) r"
  obtain rl where rl: "rl \<in> ?opts"
    and c: "calls (snd (handleRateLimit ?r4 ?ip ?q)) = calls ?r4 @ rl"
    using handleRateLimit_calls [of ?ip ?q ?r4] by blast
  have goal: "\<exists>n. 1 \<le> n \<and> calls (snd ?out) = calls r @ take n (?pre @ rl @ [?w]) \<and>
                (fst (fst ?out) = StatusOK \<longrightarrow> n = 4 + length rl + 1)"
  proof (cases "IsURL e ?u")
    case False
    then have "calls (snd ?out) = calls r @ take 1 (?pre @ rl @ [?w])" "fst (fst ?out) \<noteq> StatusOK"
      by (simp_all add: ShortenURL_def Let_def StatusOK_def StatusBadRequest_def)
    then show ?thesis by (intro exI [of _ 1]) simp
  next
    case valid: True
    show ?thesis
    proof (cases "RemoveDomainError e ?u")
      case False
      with valid have "calls (snd ?out) = calls r @ take 2 (?pre @ rl @ [?w])"
        "fst (fst ?out) \<noteq> StatusOK"
        by (simp_all add: ShortenURL_def Let_def StatusOK_def StatusServiceUnavailable_def)
      then show ?thesis by (intro exI [of _ 2]) simp
    next
      case allowed: True
      obtain val er where g: "Get ?r3 ?id = ((val, er), ?r4)"
        by (metis snd_Get prod.collapse)
      show ?thesis
      proof (cases "val = ''''")
        case False
        with valid allowed g have "calls (snd ?out) = calls r @ take 4 (?pre @ rl @ [?w])"
          "fst (fst ?out) \<noteq> StatusOK"
          by (simp_all add: ShortenURL_def Let_def StatusOK_def StatusForbidden_def)
        then show ?thesis by (intro exI [of _ 4]) simp
      next
        case free: True
        obtain rem ex err r5 where h: "handleRateLimit ?r4 ?ip ?q = ((rem, ex, err), r5)"
          by (metis prod.collapse)
        with c have c5: "calls r5 = calls r @ ?pre @ rl" by simp
        have t4: "take (4 + length rl) (?pre @ rl @ [?w]) = ?pre @ rl"
          by (simp add: numeral_eq_Suc)
        have t5: "take (4 + length rl + 1) (?pre @ rl @ [?w]) = ?pre @ rl @ [?w]"
          by simp
        show ?thesis
        proof (cases err)
          case (Some x)
          with valid allowed g free h c5
          have a: "calls (snd ?out) = calls r @ ?pre @ rl" "fst (fst ?out) \<noteq> StatusOK"
            by (simp_all add: ShortenURL_def Let_def StatusOK_def StatusServiceUnavailable_def)
          show ?thesis
            by (intro exI [of _ "4 + length rl"]) (simp only: t4, simp add: a)
        next
          case None
          obtain e6 r6 where s: "Set r5 ?id (EnforceHTTP e ?u)
              (go_mul (go_mul (if req_Expiry body = 0 then 24 else req_Expiry body) 3600) Second)
              = (e6, r6)"
            by (metis prod.collapse)
          have c6: "calls r6 = calls r5 @ [?w]"
            using snd_Set_calls [of r5 ?id "EnforceHTTP e ?u"
              "go_mul (go_mul (if req_Expiry body = 0 then 24 else req_Expiry body) 3600) Second"] s
            by simp
          have "snd ?out = r6"
            using valid allowed g free h None s
            by (cases e6) (simp_all add: ShortenURL_def Let_def)
          with c6 c5 have a: "calls (snd ?out) = calls r @ ?pre @ rl @ [?w]" by simp
          show ?thesis
            by (intro exI [of _ "4 + length rl + 1"]) (simp only: t5, simp add: a)
        qed
      qed
    qed
  qed
  with rl show ?thesis by blast
qed

theorem ShortenURL_call_order_witness:
  "fst (fst (ShortenURL sample_env (Some sample_request) fresh_store)) = StatusOK \<and>
   (\<exists>rl. calls (snd (ShortenURL sample_env (Some sample_request) fresh_store)) =
          [E_IsURL ''example.com'', E_RemoveDomainError ''example.com'',
           E_EnforceHTTP ''example.com'', E_Get ''3f2a9c''] @ rl @
          [E_Set ''3f2a9c'' ''http://example.com'' (go_mul (go_mul 24 3600) Second)])"
proof -
  have ok: "fst (fst (ShortenURL sample_env (Some sample_request) fresh_store)) = StatusOK"
    using sample_success [of 0] by (auto simp: sample_request_def)
  from ShortenURL_call_order [of sample_env sample_request fresh_store] ok
  obtain rl n where n: "n = 4 + length rl + 1"
    and c: "calls (snd (ShortenURL sample_env (Some sample_request) fresh_store)) =
       calls fresh_store @
       take n ([E_IsURL (req_URL sample_request), E_RemoveDomainError (req_URL sample_request),
                E_EnforceHTTP (req_URL sample_request), E_Get (resolve_id sample_env sample_request)] @
               rl @
               [E_Set (resolve_id sample_env sample_request)
                  (EnforceHTTP sample_env (req_URL sample_request))
                  (go_mul (go_mul (if req_Expiry sample_request = 0 then 24
                                   else req_Expiry sample_request) 3600) Second)])"
    by blast
  have "calls (snd (ShortenURL sample_env (Some sample_request) fresh_store)) =
          [E_IsURL ''example.com'', E_RemoveDomainError ''example.com'',
           E_EnforceHTTP ''example.com'', E_Get ''3f2a9c''] @ rl @
          [E_Set ''3f2a9c'' ''http://example.com'' (go_mul (go_mul 24 3600) Second)]"
    unfolding c n
    by (simp add: sample_env_def sample_request_def fresh_store_def resolve_id_def)
  with ok show ?thesis by blast
qed

section \<open>Generated identifiers\<close>




section \<open>The lifetime of a mapping\<close>

text \<open>
  C8, as the code has it. A registration that reaches the write (it is answered with
  status 200 or 500) with a caller-supplied expiry between 0 and 2562047 hours sends
  \<open>SET\<close> last, with the lifetime \<open>expiry * 3600\<close> seconds, where an expiry of 0
  counts as 24; when the write succeeds, the mapping is stored with that lifetime.
\<close>

theorem mapping_expiry:
  assumes "fst (fst (ShortenURL e (Some body) r)) = StatusOK \<or>
           fst (fst (ShortenURL e (Some body) r)) = StatusInternalServerError"
    and "0 \<le> req_Expiry body" and "req_Expiry body \<le> 2562047"
  shows "last (calls (snd (ShortenURL e (Some body) r))) =
           E_Set (resolve_id e body) (EnforceHTTP e (req_URL body))
             ((if req_Expiry body = 0 then 24 else req_Expiry body) * 3600 * Second) \<and>
         (fst (fst (ShortenURL e (Some body) r)) = StatusOK \<longrightarrow>
            kv (snd (ShortenURL e (Some body) r)) (resolve_id e body) =
              Some (EnforceHTTP e (req_URL body),
                    Some ((if req_Expiry body = 0 then 24 else req_Expiry body) * 3600 * Second)))"
proof -
  let ?x = "if req_Expiry body = 0 then 24 else req_Expiry body"
  have t: "go_mul (go_mul ?x 3600) Second = ?x * 3600 * Second"
    using assms(2,3) by (intro go_mul_expiry) auto
  have p: "0 < ?x * 3600 * Second" using assms(2) by (simp add: Second_def)
  from ShortenURL_write_step [OF assms(1)] obtain r5 rem ex where
    "ShortenURL e (Some body) r =
             (case Set r5 (resolve_id e body) (EnforceHTTP e (req_URL body))
                     (go_mul (go_mul ?x 3600) Second) of
                (Some err, r6) \<Rightarrow>
                  ((StatusInternalServerError, Error_Body ''unable to connect to server''), r6)
              | (None, r6) \<Rightarrow>
                  ((StatusOK,
                    Response_Body
                      \<lparr>resp_URL = EnforceHTTP e (req_URL body),
                       resp_CustomShort = DOMAIN e @ ''/'' @ resolve_id e body,
                       resp_Expiry = ?x,
                       XRateRemaining = rem,
                       XRateLimitReset = go_quot (go_quot ex Nanosecond) Minute\<rparr>), r6))"
    by blast
  then show ?thesis
    unfolding t using p
    by (cases "fault r5")
       (simp_all add: Set_def command_def StatusOK_def StatusInternalServerError_def)
qed

theorem mapping_expiry_witness:
  "fst (fst (ShortenURL sample_env (Some sample_request) fresh_store)) = StatusOK \<and>
   0 \<le> req_Expiry sample_request \<and> req_Expiry sample_request \<le> 2562047 \<and>
   kv (snd (ShortenURL sample_env (Some sample_request) fresh_store)) ''3f2a9c'' =
     Some (''http://example.com'', Some (24 * 3600 * Second))"
proof -
  have ok: "fst (fst (ShortenURL sample_env (Some sample_request) fresh_store)) = StatusOK"
    using sample_success [of 0] by (auto simp: sample_request_def)
  from mapping_expiry [of sample_env sample_request fresh_store] ok show ?thesis
    by (simp add: sample_request_def sample_env_def resolve_id_def)
qed

text \<open>
  The claim as the specification words it covers every expiry. With 2562048 hours the
  product \<open>expiry * 3600 * time.Second\<close> wraps around to a negative duration, and
  with -1 hours it is negative to begin with; in both cases the mapping is stored
  without a lifetime.
\<close>

theorem expiry_out_of_range:
  "fst (fst (ShortenURL sample_env (Some (sample_request\<lparr>req_Expiry := 2562048\<rparr>)) fresh_store))
     = StatusOK \<and>
   last (calls (snd (ShortenURL sample_env (Some (sample_request\<lparr>req_Expiry := 2562048\<rparr>))
                       fresh_store)))
     = E_Set ''3f2a9c'' ''http://example.com'' (- 9223371273709551616) \<and>
   kv (snd (ShortenURL sample_env (Some (sample_request\<lparr>req_Expiry := 2562048\<rparr>)) fresh_store))
      ''3f2a9c''
     = Some (''http://example.com'', None) \<and>
   2562048 * 3600 * Second = 9223372800000000000 \<and>
   fst (fst (ShortenURL sample_env (Some (sample_request\<lparr>req_Expiry := - 1\<rparr>)) fresh_store))
     = StatusOK \<and>
   kv (snd (ShortenURL sample_env (Some (sample_request\<lparr>req_Expiry := - 1\<rparr>)) fresh_store))
      ''3f2a9c''
     = Some (''http://example.com'', None)"
proof -
  have t: "go_mul (go_mul 2562048 3600) Second = - 9223371273709551616"
    by (simp add: go_mul_def wrap64_def Second_def)
  have n: "go_mul (go_mul (- 1) 3600) Second = - 3600000000000"
    by (simp add: go_mul_def wrap64_def Second_def)
  have m: "2562048 * 3600 * Second = 9223372800000000000" by (simp add: Second_def)
  have a: "fst (fst (ShortenURL sample_env (Some (sample_request\<lparr>req_Expiry := 2562048\<rparr>)) fresh_store))
     = StatusOK \<and>
   last (calls (snd (ShortenURL sample_env (Some (sample_request\<lparr>req_Expiry := 2562048\<rparr>))
                       fresh_store)))
     = E_Set ''3f2a9c'' ''http://example.com'' (- 9223371273709551616) \<and>
   kv (snd (ShortenURL sample_env (Some (sample_request\<lparr>req_Expiry := 2562048\<rparr>)) fresh_store))
      ''3f2a9c''
     = Some (''http://example.com'', None)"
    using sample_success [of 2562048] by (auto simp: t)
  have b: "fst (fst (ShortenURL sample_env (Some (sample_request\<lparr>req_Expiry := - 1\<rparr>)) fresh_store))
     = StatusOK \<and>
   kv (snd (ShortenURL sample_env (Some (sample_request\<lparr>req_Expiry := - 1\<rparr>)) fresh_store))
      ''3f2a9c''
     = Some (''http://example.com'', None)"
    using sample_success [of "- 1"] by (auto simp: n)
  from a b m show ?thesis by blast
qed

section \<open>A fresh client with quota 100\<close>

lemma faults_emit [simp]: "faults (emit ev r) = faults r"
  by (simp add: emit_def)

lemma fault_no_faults: "faults r = [] \<Longrightarrow> fault r = None"
  by (simp add: fault_def)

lemma ShortenURL_registers:
  assumes "IsURL e (req_URL body)" and "RemoveDomainError e (req_URL body)"
    and "kv r (resolve_id e body) = None" and "faults r = []"
    and "(kv r (IP e) = None \<and> rem = quota_of e) \<or>
         (\<exists>l. kv r (IP e) = Some (itoa (rem + 1), l) \<and> 0 \<le> rem \<and> is_int64 (rem + 1))"
  shows "fst (fst (ShortenURL e (Some body) r)) = StatusOK \<and>
         rate_limit_of (fst (ShortenURL e (Some body) r)) = Some rem \<and>
         faults (snd (ShortenURL e (Some body) r)) = [] \<and>
         (\<exists>lt. kv (snd (ShortenURL e (Some body) r)) =
                 (kv r)(IP e \<mapsto> (itoa rem, Some (30 * Minute)),
                        resolve_id e body \<mapsto> (EnforceHTTP e (req_URL body), lt)))"
proof -
  let ?u = "req_URL body"
  let ?r3 = "emit (E_EnforceHTTP ?u) (emit (E_RemoveDomainError ?u) (emit (E_IsURL ?u) r))"
  let ?id = "resolve_id e body"
  let ?r4 = "sent (E_Get ?id) ?r3"
  let ?ip = "IP e"
  let ?q = "quota_of e"
  let ?t = "go_mul (go_mul (if req_Expiry body = 0 then 24 else req_Expiry body) 3600) Second"
  have f3: "fault ?r3 = None" using assms(4) by (simp add: fault_no_faults)
  have f4: "faults ?r4 = []" using assms(4) by (simp add: faults_sent)
  have g: "Get ?r3 ?id = (('''', Some Redis_Nil), ?r4)"
    using f3 assms(3) by (simp add: Get_ok)
  have "\<exists>r5. handleRateLimit ?r4 ?ip ?q = ((rem, 30 * Minute, None), r5) \<and>
          kv r5 = (kv r)(?ip \<mapsto> (itoa rem, Some (30 * Minute))) \<and> faults r5 = []"
    using assms(5)
  proof (elim disjE conjE exE)
    assume "kv r ?ip = None" and rem: "rem = ?q"
    then have k: "kv ?r4 ?ip = None" by simp
    have h2: "healthy 2 ?r4" using f4 by (rule healthy_no_faults)
    show ?thesis
      unfolding handleRateLimit_first [OF k h2] using f4 rem
      by (simp add: Minute_def faults_sent)
  next
    fix l
    assume "kv r ?ip = Some (itoa (rem + 1), l)" and p: "0 \<le> rem" and i: "is_int64 (rem + 1)"
    then have k: "kv ?r4 ?ip = Some (itoa (rem + 1), l)" by simp
    have h3: "healthy 3 ?r4" using f4 by (rule healthy_no_faults)
    from p have p': "0 < rem + 1" by simp
    show ?thesis
      unfolding handleRateLimit_decrement [OF k p' i h3] using f4
      by (simp add: Minute_def faults_sent)
  qed
  then obtain r5 where h: "handleRateLimit ?r4 ?ip ?q = ((rem, 30 * Minute, None), r5)"
    and k5: "kv r5 = (kv r)(?ip \<mapsto> (itoa rem, Some (30 * Minute)))" and f5: "faults r5 = []"
    by blast
  have s: "Set r5 ?id (EnforceHTTP e ?u) ?t =
             (None, (sent (E_Set ?id (EnforceHTTP e ?u) ?t) r5)
                      \<lparr>kv := (kv r5)(?id \<mapsto> (EnforceHTTP e ?u, if 0 < ?t then Some ?t else None))\<rparr>)"
    using f5 by (simp add: Set_ok fault_no_faults)
  have out: "ShortenURL e (Some body) r =
      ((StatusOK,
        Response_Body
          \<lparr>resp_URL = EnforceHTTP e ?u,
           resp_CustomShort = DOMAIN e @ ''/'' @ ?id,
           resp_Expiry = (if req_Expiry body = 0 then 24 else req_Expiry body),
           XRateRemaining = rem,
           XRateLimitReset = go_quot (go_quot (30 * Minute) Nanosecond) Minute\<rparr>),
       (sent (E_Set ?id (EnforceHTTP e ?u) ?t) r5)
         \<lparr>kv := (kv r5)(?id \<mapsto> (EnforceHTTP e ?u, if 0 < ?t then Some ?t else None))\<rparr>)"
    using assms(1,2) g h s by (simp add: ShortenURL_def Let_def)
  show ?thesis
    unfolding out using k5 f5 by (auto simp: rate_limit_of_def faults_sent)
qed


lemma fst_registrations_Cons:
  "fst (registrations r ((g, e, body) # xs)) =
     fst (ShortenURL e (Some body) (elapse g r)) #
     fst (registrations (snd (ShortenURL e (Some body) (elapse g r))) xs)"
  by (simp split: prod.splits)

lemma snd_registrations_Cons:
  "snd (registrations r ((g, e, body) # xs)) =
     snd (registrations (snd (ShortenURL e (Some body) (elapse g r))) xs)"
  by (simp split: prod.splits)

lemma registrations_append:
  "registrations r (xs @ ys) =
     (fst (registrations r xs) @ fst (registrations (snd (registrations r xs)) ys),
      snd (registrations (snd (registrations r xs)) ys))"
  by (induction xs arbitrary: r) (auto split: prod.splits)

text \<open>One registration of the client, some time after the one before.\<close>

lemma registration_step:
  assumes "step_ok ip q (g, e, body)" and "kv r (resolve_id e body) = None" and "faults r = []"
    and "(kv r ip = None \<and> rem = q) \<or>
         (kv r ip = Some (itoa (rem + 1), Some (30 * Minute)) \<and> 0 \<le> rem \<and> is_int64 (rem + 1))"
  shows "fst (fst (ShortenURL e (Some body) (elapse g r))) = StatusOK \<and>
         rate_limit_of (fst (ShortenURL e (Some body) (elapse g r))) = Some rem \<and>
         faults (snd (ShortenURL e (Some body) (elapse g r))) = [] \<and>
         kv (snd (ShortenURL e (Some body) (elapse g r))) ip = Some (itoa rem, Some (30 * Minute)) \<and>
         (\<forall>k. kv r k = None \<longrightarrow> k \<noteq> ip \<longrightarrow> k \<noteq> resolve_id e body \<longrightarrow>
              kv (snd (ShortenURL e (Some body) (elapse g r))) k = None)"
proof -
  from assms(1) have ok: "g < 30 * Minute" "IP e = ip" "quota_of e = q"
    "IsURL e (req_URL body)" "RemoveDomainError e (req_URL body)" "resolve_id e body \<noteq> ip"
    by (simp_all add: step_ok_def)
  have k: "kv (elapse g r) (resolve_id e body) = None" using assms(2) by (rule kv_elapse_None)
  have f: "faults (elapse g r) = []" using assms(3) by simp
  have c: "(kv (elapse g r) (IP e) = None \<and> rem = quota_of e) \<or>
         (\<exists>l. kv (elapse g r) (IP e) = Some (itoa (rem + 1), l) \<and> 0 \<le> rem \<and> is_int64 (rem + 1))"
    using assms(4) ok(1,2,3) by (auto simp: kv_elapse_None kv_elapse_live)
  from ShortenURL_registers [OF ok(4,5) k f c] obtain lt where
    a: "fst (fst (ShortenURL e (Some body) (elapse g r))) = StatusOK"
       "rate_limit_of (fst (ShortenURL e (Some body) (elapse g r))) = Some rem"
       "faults (snd (ShortenURL e (Some body) (elapse g r))) = []"
    and kv': "kv (snd (ShortenURL e (Some body) (elapse g r))) =
                 (kv (elapse g r))(IP e \<mapsto> (itoa rem, Some (30 * Minute)),
                        resolve_id e body \<mapsto> (EnforceHTTP e (req_URL body), lt))"
    by blast
  show ?thesis
    using a ok(2,6) unfolding kv' by (auto simp: kv_elapse_None)
qed

lemma registrations_countdown:
  assumes "kv r ip = Some (itoa c, Some (30 * Minute))" and "faults r = []"
    and "int (length xs) \<le> c" and "is_int64 c"
    and "\<forall>x\<in>set xs. step_ok ip q x" and "distinct (map step_id xs)"
    and "\<forall>x\<in>set xs. kv r (step_id x) = None"
  shows "map fst (fst (registrations r xs)) = replicate (length xs) StatusOK \<and>
         map rate_limit_of (fst (registrations r xs)) = map (\<lambda>j. Some (c - 1 - int j)) [0..<length xs] \<and>
         kv (snd (registrations r xs)) ip = Some (itoa (c - int (length xs)), Some (30 * Minute)) \<and>
         faults (snd (registrations r xs)) = [] \<and>
         (\<forall>k. kv r k = None \<longrightarrow> k \<noteq> ip \<longrightarrow> k \<notin> step_id ` set xs \<longrightarrow>
              kv (snd (registrations r xs)) k = None)"
  using assms
proof (induction xs arbitrary: r c)
  case Nil
  then show ?case by simp
next
  case (Cons x xs)
  obtain g e body where x: "x = (g, e, body)" by (cases x)
  let ?r' = "snd (ShortenURL e (Some body) (elapse g r))"
  have ok: "step_ok ip q (g, e, body)" using Cons.prems(5) x by simp
  have id: "step_id x = resolve_id e body" using x by (simp add: step_id_def)
  have fresh: "kv r (resolve_id e body) = None" using Cons.prems(7) id by simp
  have neq: "resolve_id e body \<noteq> ip" using ok by (simp add: step_ok_def)
  have pos: "0 < c" using Cons.prems(3) by simp
  have cnt: "(kv r ip = None \<and> c - 1 = q) \<or>
             (kv r ip = Some (itoa (c - 1 + 1), Some (30 * Minute)) \<and> 0 \<le> c - 1 \<and> is_int64 (c - 1 + 1))"
    using Cons.prems(1,4) pos by simp
  from registration_step [OF ok fresh Cons.prems(2) cnt]
  have st: "fst (fst (ShortenURL e (Some body) (elapse g r))) = StatusOK"
    and rl: "rate_limit_of (fst (ShortenURL e (Some body) (elapse g r))) = Some (c - 1)"
    and f: "faults ?r' = []"
    and k: "kv ?r' ip = Some (itoa (c - 1), Some (30 * Minute))"
    and un: "\<forall>k. kv r k = None \<longrightarrow> k \<noteq> ip \<longrightarrow> k \<noteq> resolve_id e body \<longrightarrow> kv ?r' k = None"
    by blast+
  have len: "int (length xs) \<le> c - 1" using Cons.prems(3) by simp
  have i: "is_int64 (c - 1)" using pos Cons.prems(4) by (simp add: is_int64_def)
  have oks: "\<forall>x\<in>set xs. step_ok ip q x" using Cons.prems(5) by simp
  have d: "distinct (map step_id xs)" and notin: "resolve_id e body \<notin> step_id ` set xs"
    using Cons.prems(6) id by auto
  have fr: "\<forall>y\<in>set xs. kv ?r' (step_id y) = None"
  proof
    fix y assume y: "y \<in> set xs"
    then have "kv r (step_id y) = None" using Cons.prems(7) by simp
    moreover have "step_id y \<noteq> ip" using oks y by (cases y) (auto simp: step_ok_def step_id_def)
    moreover have "step_id y \<noteq> resolve_id e body" using notin y by (metis imageI)
    ultimately show "kv ?r' (step_id y) = None" using un by blast
  qed
  from Cons.IH [OF k f len i oks d fr]
  have ih1: "map fst (fst (registrations ?r' xs)) = replicate (length xs) StatusOK"
    and ih2: "map rate_limit_of (fst (registrations ?r' xs)) = map (\<lambda>j. Some (c - 1 - 1 - int j)) [0..<length xs]"
    and ih3: "kv (snd (registrations ?r' xs)) ip = Some (itoa (c - 1 - int (length xs)), Some (30 * Minute))"
    and ih4: "faults (snd (registrations ?r' xs)) = []"
    and ih5: "\<forall>k. kv ?r' k = None \<longrightarrow> k \<noteq> ip \<longrightarrow> k \<notin> step_id ` set xs \<longrightarrow>
              kv (snd (registrations ?r' xs)) k = None"
    by blast+
  have m: "map (\<lambda>j. Some (c - 1 - int j)) [0..<length ((g, e, body) # xs)]
           = Some (c - 1) # map (\<lambda>j. Some (c - 1 - 1 - int j)) [0..<length xs]"
    by (simp add: map_upt_Suc del: upt_Suc)
  have a: "c - int (length ((g, e, body) # xs)) = c - 1 - int (length xs)" by simp
  have un': "\<forall>k. kv r k = None \<longrightarrow> k \<noteq> ip \<longrightarrow> k \<notin> step_id ` set ((g, e, body) # xs) \<longrightarrow>
              kv (snd (registrations ?r' xs)) k = None"
    using un ih5 by (auto simp: step_id_def)
  show ?case
    unfolding x fst_registrations_Cons snd_registrations_Cons m a
    using st rl ih1 ih2 ih3 ih4 un' by simp
qed


lemma registrations_fresh:
  assumes "kv r ip = None" and "faults r = []" and "0 \<le> q" and "is_int64 q"
    and "length mid = nat q"
    and "\<forall>x\<in>set (x0 # mid @ [xl]). step_ok ip q x"
    and "distinct (map step_id (x0 # mid @ [xl]))"
    and "\<forall>x\<in>set (x0 # mid @ [xl]). kv r (step_id x) = None"
  shows "map fst (fst (registrations r (x0 # mid))) = replicate (Suc (nat q)) StatusOK \<and>
         map rate_limit_of (fst (registrations r (x0 # mid))) =
           Some q # map (\<lambda>j. Some (q - 1 - int j)) [0..<nat q] \<and>
         kv (elapse (fst xl) (snd (registrations r (x0 # mid)))) ip =
           Some (itoa 0, Some (30 * Minute - fst xl)) \<and>
         fst (handleRateLimit (elapse (fst xl) (snd (registrations r (x0 # mid)))) ip q) =
           (0, 30 * Minute - fst xl, Some (Errorf ''rate limit exceeded'')) \<and>
         (\<exists>field.
            fst (registrations r (x0 # mid @ [xl])) =
              fst (registrations r (x0 # mid)) @
              [(StatusServiceUnavailable, Limit_Body (Errorf ''rate limit exceeded'') field)])"
proof -
  obtain g0 e0 b0 where x0: "x0 = (g0, e0, b0)" by (cases x0)
  obtain gl el bl where xl: "xl = (gl, el, bl)" by (cases xl)
  let ?r1 = "snd (ShortenURL e0 (Some b0) (elapse g0 r))"
  let ?r2 = "snd (registrations ?r1 mid)"
  have ok0: "step_ok ip q (g0, e0, b0)" using assms(6) x0 by simp
  have id0: "step_id x0 = resolve_id e0 b0" using x0 by (simp add: step_id_def)
  have fresh0: "kv r (resolve_id e0 b0) = None" using assms(8) id0 by simp
  have cnt: "(kv r ip = None \<and> q = q) \<or>
             (kv r ip = Some (itoa (q + 1), Some (30 * Minute)) \<and> 0 \<le> q \<and> is_int64 (q + 1))"
    using assms(1) by simp
  from registration_step [OF ok0 fresh0 assms(2) cnt]
  have st: "fst (fst (ShortenURL e0 (Some b0) (elapse g0 r))) = StatusOK"
    and rl: "rate_limit_of (fst (ShortenURL e0 (Some b0) (elapse g0 r))) = Some q"
    and f: "faults ?r1 = []"
    and k: "kv ?r1 ip = Some (itoa q, Some (30 * Minute))"
    and un: "\<forall>k. kv r k = None \<longrightarrow> k \<noteq> ip \<longrightarrow> k \<noteq> resolve_id e0 b0 \<longrightarrow> kv ?r1 k = None"
    by blast+
  have oks: "\<forall>x\<in>set (mid @ [xl]). step_ok ip q x" using assms(6) by simp
  have d: "distinct (map step_id (mid @ [xl]))"
    and notin: "resolve_id e0 b0 \<notin> step_id ` set (mid @ [xl])"
    using assms(7) id0 by auto
  have fr: "\<forall>y\<in>set (mid @ [xl]). kv ?r1 (step_id y) = None"
  proof
    fix y assume y: "y \<in> set (mid @ [xl])"
    then have "kv r (step_id y) = None" using assms(8) by auto
    moreover have "step_id y \<noteq> ip" using oks y by (cases y) (auto simp: step_ok_def step_id_def)
    moreover have "step_id y \<noteq> resolve_id e0 b0" using notin y by (metis imageI)
    ultimately show "kv ?r1 (step_id y) = None" using un by blast
  qed
  have len: "int (length mid) \<le> q" using assms(3,5) by simp
  have oks': "\<forall>x\<in>set mid. step_ok ip q x" using oks by simp
  have d': "distinct (map step_id mid)" and notl: "step_id xl \<notin> step_id ` set mid"
    using d by auto
  have fr': "\<forall>y\<in>set mid. kv ?r1 (step_id y) = None" using fr by simp
  from registrations_countdown [OF k f len assms(4) oks' d' fr']
  have c1: "map fst (fst (registrations ?r1 mid)) = replicate (nat q) StatusOK"
    and c2: "map rate_limit_of (fst (registrations ?r1 mid)) = map (\<lambda>j. Some (q - 1 - int j)) [0..<nat q]"
    and c3: "kv ?r2 ip = Some (itoa 0, Some (30 * Minute))"
    and c4: "faults ?r2 = []"
    and c5: "\<forall>k. kv ?r1 k = None \<longrightarrow> k \<noteq> ip \<longrightarrow> k \<notin> step_id ` set mid \<longrightarrow> kv ?r2 k = None"
    using assms(3,5) by simp_all
  have okl: "gl < 30 * Minute" "IP el = ip" "IsURL el (req_URL bl)" "RemoveDomainError el (req_URL bl)"
    "resolve_id el bl \<noteq> ip"
    using oks xl by (simp_all add: step_ok_def)
  have idl: "step_id xl = resolve_id el bl" using xl by (simp add: step_id_def)
  have "kv ?r1 (resolve_id el bl) = None" using fr idl by simp
  with c5 okl(5) notl idl have freshl: "kv ?r2 (resolve_id el bl) = None" by simp
  have kl: "kv (elapse gl ?r2) ip = Some (itoa 0, Some (30 * Minute - gl))"
    using c3 okl(1) by (rule kv_elapse_live)
  have kl': "kv (elapse gl ?r2) (IP el) = Some (itoa 0, Some (30 * Minute - gl))"
    using kl okl(2) by simp
  have a0: "atoi (itoa 0) = Some 0" by (simp add: atoi_itoa is_int64_def)
  have h: "healthy 3 (elapse gl ?r2)" using c4 by (simp add: healthy_no_faults)
  have il: "kv (elapse gl ?r2) (resolve_id el bl) = None" using freshl by (rule kv_elapse_None)
  from ShortenURL_exceeded_reply [OF kl' a0 _ h okl(3,4) il]
  have last: "fst (ShortenURL el (Some bl) (elapse gl ?r2)) =
           (StatusServiceUnavailable,
            Limit_Body (Errorf ''rate limit exceeded'')
              (go_quot (go_quot (30 * Minute - gl) Second) Minute))"
    by simp
  have r2: "snd (registrations r (x0 # mid)) = ?r2"
    unfolding x0 snd_registrations_Cons ..
  have "fst (registrations ?r2 [xl]) =
          [(StatusServiceUnavailable,
            Limit_Body (Errorf ''rate limit exceeded'')
              (go_quot (go_quot (30 * Minute - gl) Second) Minute))]"
    unfolding xl fst_registrations_Cons using last by simp
  then have app: "fst (registrations r (x0 # mid @ [xl])) =
              fst (registrations r (x0 # mid)) @
              [(StatusServiceUnavailable,
                Limit_Body (Errorf ''rate limit exceeded'')
                  (go_quot (go_quot (30 * Minute - gl) Second) Minute))]"
    using registrations_append [of r "x0 # mid" "[xl]"] r2 by simp
  have p1: "map fst (fst (registrations r (x0 # mid))) = replicate (Suc (nat q)) StatusOK"
    unfolding x0 fst_registrations_Cons using st c1 by simp
  have p2: "map rate_limit_of (fst (registrations r (x0 # mid))) =
           Some q # map (\<lambda>j. Some (q - 1 - int j)) [0..<nat q]"
    unfolding x0 fst_registrations_Cons using rl c2 by simp
  have p3: "kv (elapse (fst xl) (snd (registrations r (x0 # mid)))) ip =
           Some (itoa 0, Some (30 * Minute - fst xl))"
    unfolding r2 using kl xl by simp
  have h2: "healthy 2 (elapse gl ?r2)" using c4 by (simp add: healthy_no_faults)
  have p5: "fst (handleRateLimit (elapse (fst xl) (snd (registrations r (x0 # mid)))) ip q) =
           (0, 30 * Minute - fst xl, Some (Errorf ''rate limit exceeded''))"
    unfolding r2 using handleRateLimit_exceeded_ok [OF kl a0 _ h2, of q] xl by simp
  from p1 p2 p3 p5 app show ?thesis by blast
qed


lemma registrations_102:
  assumes "kv r ip = None" and "faults r = []" and "length xs = 102"
    and "\<forall>x\<in>set xs. step_ok ip 100 x" and "distinct (map step_id xs)"
    and "\<forall>x\<in>set xs. kv r (step_id x) = None"
  shows "fst (fst (registrations r xs) ! 0) = StatusOK \<and>
         rate_limit_of (fst (registrations r xs) ! 0) = Some 100 \<and>
         fst (fst (registrations r xs) ! 1) = StatusOK \<and>
         rate_limit_of (fst (registrations r xs) ! 1) = Some 99 \<and>
         fst (fst (registrations r xs) ! 100) = StatusOK \<and>
         rate_limit_of (fst (registrations r xs) ! 100) = Some 0 \<and>
         (\<exists>field. fst (registrations r xs) ! 101 =
            (StatusServiceUnavailable, Limit_Body (Errorf ''rate limit exceeded'') field)) \<and>
         kv (elapse (fst (xs ! 101)) (snd (registrations r (take 101 xs)))) ip =
           Some (itoa 0, Some (30 * Minute - fst (xs ! 101))) \<and>
         fst (handleRateLimit (elapse (fst (xs ! 101)) (snd (registrations r (take 101 xs)))) ip 100) =
           (0, 30 * Minute - fst (xs ! 101), Some (Errorf ''rate limit exceeded'')) \<and>
         0 < 30 * Minute - fst (xs ! 101) \<and> 30 * Minute - fst (xs ! 101) \<le> 30 * Minute"
proof -
  from assms(3) have "length xs = Suc (Suc 100)" by simp
  then obtain x0 mid xl where xs: "xs = x0 # mid @ [xl]" and len: "length mid = 100"
    using split_ends by blast
  let ?A = "fst (registrations r (x0 # mid))"
  have len': "length mid = nat 100" using len by simp
  have q: "(0::int) \<le> 100" "is_int64 100" by (simp_all add: is_int64_def)
  from registrations_fresh [OF assms(1,2) q len' assms(4-6) [unfolded xs]]
  obtain field where p1: "map fst ?A = replicate (Suc (nat 100)) StatusOK"
    and p2: "map rate_limit_of ?A = Some 100 # map (\<lambda>j. Some (100 - 1 - int j)) [0..<nat 100]"
    and p3: "kv (elapse (fst xl) (snd (registrations r (x0 # mid)))) ip =
               Some (itoa 0, Some (30 * Minute - fst xl))"
    and p5: "fst (handleRateLimit (elapse (fst xl) (snd (registrations r (x0 # mid)))) ip 100) =
               (0, 30 * Minute - fst xl, Some (Errorf ''rate limit exceeded''))"
    and p4: "fst (registrations r (x0 # mid @ [xl])) =
               ?A @ [(StatusServiceUnavailable, Limit_Body (Errorf ''rate limit exceeded'') field)]"
    by auto
  have lenA: "length ?A = 101"
    using arg_cong [OF p1, of length] by simp
  have st: "fst (?A ! j) = StatusOK" if "j < 101" for j
  proof -
    have "map fst ?A ! j = StatusOK" unfolding p1 using that by simp
    then show ?thesis using that lenA by simp
  qed
  have rl: "rate_limit_of (?A ! j) = (Some 100 # map (\<lambda>j. Some (100 - 1 - int j)) [0..<nat 100]) ! j"
    if "j < 101" for j
  proof -
    have "map rate_limit_of ?A ! j = (Some 100 # map (\<lambda>j. Some (100 - 1 - int j)) [0..<nat 100]) ! j"
      unfolding p2 ..
    then show ?thesis using that lenA by simp
  qed
  have nth: "fst (registrations r xs) ! j = ?A ! j" if "j < 101" for j
    unfolding xs p4 using that lenA by (simp add: nth_append)
  have last: "fst (registrations r xs) ! 101 =
                (StatusServiceUnavailable, Limit_Body (Errorf ''rate limit exceeded'') field)"
    unfolding xs p4 using lenA by (simp add: nth_append)
  have xl: "xs ! 101 = xl" using xs len by (simp add: nth_append nth_Cons')
  have tk: "take 101 xs = x0 # mid" using xs len by simp
  have ok: "step_ok ip 100 xl" using assms(4) xs by simp
  then have g: "0 \<le> fst xl" "fst xl < 30 * Minute"
    by (cases xl; simp add: step_ok_def)+
  have a: "fst (fst (registrations r xs) ! 0) = StatusOK"
    "fst (fst (registrations r xs) ! 1) = StatusOK"
    "fst (fst (registrations r xs) ! 100) = StatusOK"
    by (simp_all add: nth st)
  have b: "rate_limit_of (fst (registrations r xs) ! 0) = Some 100"
    "rate_limit_of (fst (registrations r xs) ! 1) = Some 99"
    "rate_limit_of (fst (registrations r xs) ! 100) = Some 0"
    by (simp_all add: nth rl nth_Cons')
  from a b last p3 p5 g show ?thesis unfolding xl tk by auto
qed

lemma sample_steps_ok:
  "length sample_steps = 102"
  "\<forall>x\<in>set sample_steps. step_ok ''10.0.0.1'' 100 x"
  "distinct (map step_id sample_steps)"
  "\<forall>x\<in>set sample_steps. kv fresh_store (step_id x) = None"
proof -
  show "length sample_steps = 102" by (simp add: sample_steps_def)
  have q: "quota_of sample_env = 100" by (simp add: quota_of_def sample_env_def atoi_def)
  show "\<forall>x\<in>set sample_steps. step_ok ''10.0.0.1'' 100 x"
    using q by (auto simp: sample_steps_def step_ok_def resolve_id_def Minute_def Second_def
                           sample_env_def)
  have "inj_on (\<lambda>n. replicate (Suc n) CHR ''a'') (set [0..<102])"
    by (rule inj_onI) (auto dest: arg_cong [where f = length])
  then show "distinct (map step_id sample_steps)"
    by (simp add: sample_steps_def step_id_def resolve_id_def o_def distinct_map)
  show "\<forall>x\<in>set sample_steps. kv fresh_store (step_id x) = None"
    by (simp add: fresh_store_def)
qed

text \<open>
  C4, as the code has it. A client without a counter makes 102 registrations under
  quota 100: each less than 30 minutes after the one before, each with a valid, allowed
  URL and an identifier of its own that is not in the store and is not the client's
  address, the store answering every command. The first reply carries the remaining
  quota 100, the second 99, the 101st still succeeds and carries 0, and the 102nd is
  refused with status 503 and the error \<open>rate limit exceeded\<close>. When that request
  arrives, the counter key has a remaining lifetime that is positive and at most 30
  minutes, and this is the reset duration \<open>handleRateLimit\<close> returns with the error.
\<close>

theorem fresh_client_registrations:
  assumes "kv r ip = None" and "faults r = []" and "length xs = 102"
    and "\<forall>x\<in>set xs. step_ok ip 100 x" and "distinct (map step_id xs)"
    and "\<forall>x\<in>set xs. kv r (step_id x) = None"
  shows "fst (fst (registrations r xs) ! 0) = StatusOK \<and>
         rate_limit_of (fst (registrations r xs) ! 0) = Some 100 \<and>
         fst (fst (registrations r xs) ! 1) = StatusOK \<and>
         rate_limit_of (fst (registrations r xs) ! 1) = Some 99 \<and>
         fst (fst (registrations r xs) ! 100) = StatusOK \<and>
         rate_limit_of (fst (registrations r xs) ! 100) = Some 0 \<and>
         (\<exists>field. fst (registrations r xs) ! 101 =
            (StatusServiceUnavailable, Limit_Body (Errorf ''rate limit exceeded'') field)) \<and>
         kv (elapse (fst (xs ! 101)) (snd (registrations r (take 101 xs)))) ip =
           Some (itoa 0, Some (30 * Minute - fst (xs ! 101))) \<and>
         fst (handleRateLimit (elapse (fst (xs ! 101)) (snd (registrations r (take 101 xs)))) ip 100) =
           (0, 30 * Minute - fst (xs ! 101), Some (Errorf ''rate limit exceeded'')) \<and>
         0 < 30 * Minute - fst (xs ! 101) \<and> 30 * Minute - fst (xs ! 101) \<le> 30 * Minute"
  using assms by (rule registrations_102)

theorem fresh_client_registrations_witness:
  "kv fresh_store ''10.0.0.1'' = None \<and> faults fresh_store = [] \<and>
   length sample_steps = 102 \<and> distinct (map step_id sample_steps) \<and>
   rate_limit_of (fst (registrations fresh_store sample_steps) ! 0) = Some 100 \<and>
   rate_limit_of (fst (registrations fresh_store sample_steps) ! 100) = Some 0 \<and>
   fst (fst (registrations fresh_store sample_steps) ! 101) = StatusServiceUnavailable \<and>
   kv (elapse (fst (sample_steps ! 101)) (snd (registrations fresh_store (take 101 sample_steps))))
      ''10.0.0.1'' = Some (itoa 0, Some (30 * Minute - fst (sample_steps ! 101)))"
proof -
  have k: "kv fresh_store ''10.0.0.1'' = None" and f: "faults fresh_store = []"
    by (simp_all add: fresh_store_def)
  from fresh_client_registrations [OF k f sample_steps_ok] k f sample_steps_ok(1,3)
  show ?thesis by auto
qed

text \<open>
  The claim as the specification words it lets the 101st call fail. The 101st
  registration of the sample client succeeds, with remaining quota 0.
\<close>

theorem registration_101_succeeds:
  "fst (fst (registrations fresh_store sample_steps) ! 100) = StatusOK \<and>
   rate_limit_of (fst (registrations fresh_store sample_steps) ! 100) = Some 0"
proof -
  have k: "kv fresh_store ''10.0.0.1'' = None" and f: "faults fresh_store = []"
    by (simp_all add: fresh_store_def)
  from registrations_102 [OF k f sample_steps_ok] show ?thesis by blast
qed


end
